theory Spec2Isabelle
  imports Complex_Main
begin

section \<open>JavaScript numbers\<close>

text \<open>
  Every quantity of \<^verbatim>\<open>estimator.ts\<close> is a JavaScript \<^verbatim>\<open>number\<close>: an IEEE 754
  binary64 value. A finite value is the real number it denotes (\<open>Fin 0\<close> is \<open>+0\<close>); the
  negative zero, the two infinities and NaN are values of their own. The arithmetic
  operators compute the exact real result and round it to the nearest double, ties to
  even, with gradual underflow and overflow to an infinity.
\<close>

datatype number = NaN | Infinity bool | NegZero | Fin real

fun isNaN :: "number \<Rightarrow> bool" where
  "isNaN NaN = True"
| "isNaN _ = False"

fun isInf :: "number \<Rightarrow> bool" where
  "isInf (Infinity _) = True"
| "isInf _ = False"

text \<open>The sign bit (\<open>Infinity True\<close> is the negative infinity).\<close>

fun negative :: "number \<Rightarrow> bool" where
  "negative NaN = False"
| "negative (Infinity s) = s"
| "negative NegZero = True"
| "negative (Fin q) = (q < 0)"

fun val :: "number \<Rightarrow> real" where
  "val (Fin q) = q"
| "val _ = 0"

definition is_zero :: "number \<Rightarrow> bool" where
  "is_zero x = (x = NegZero \<or> x = Fin 0)"

definition zero :: "bool \<Rightarrow> number" where
  "zero s = (if s then NegZero else Fin 0)"

text \<open>The number of binary digits of a natural number.\<close>

fun bitlen_nat :: "nat \<Rightarrow> nat" where
  "bitlen_nat n = (if n = 0 then 0 else Suc (bitlen_nat (n div 2)))"

declare bitlen_nat.simps [simp del]

text \<open>\<open>ilog2 q\<close> is the exponent \<open>e\<close> with \<open>2^e \<le> q < 2^(e+1)\<close>, for \<open>0 < q\<close>.\<close>

definition ilog2 :: "real \<Rightarrow> int" where
  "ilog2 q = (if 1 \<le> q then int (bitlen_nat (nat \<lfloor>q\<rfloor>)) - 1
              else - int (bitlen_nat (nat (\<lceil>1 / q\<rceil> - 1))))"

definition round_even :: "real \<Rightarrow> int" where
  "round_even k = (let n = \<lfloor>k\<rfloor>; r = k - of_int n in
     if r < 1 / 2 then n else if 1 / 2 < r then n + 1 else if even n then n else n + 1)"

text \<open>
  Rounding of a magnitude to 53 significant bits; below \<open>2^(-1022)\<close> the spacing stays
  \<open>2^(-1074)\<close> (subnormal numbers).
\<close>

definition round_mag :: "real \<Rightarrow> real" where
  "round_mag q = (if q = 0 then 0 else
     let e = max (ilog2 q) (- 1022); ulp = 2 powi (e - 52)
     in of_int (round_even (q / ulp)) * ulp)"

definition rnd :: "real \<Rightarrow> number" where
  "rnd q = (let m = round_mag \<bar>q\<bar> in
     if 2 ^ 1024 \<le> m then Infinity (q < 0)
     else if m = 0 then zero (q < 0)
     else Fin (if q < 0 then - m else m))"

instantiation number :: "{plus, times, inverse, ord}"
begin

definition plus_number :: "number \<Rightarrow> number \<Rightarrow> number" where
  "x + y = (if isNaN x \<or> isNaN y then NaN
     else if isInf x then (if isInf y \<and> negative x \<noteq> negative y then NaN else x)
     else if isInf y then y
     else if val x + val y = 0 then zero (negative x \<and> negative y)
     else rnd (val x + val y))"

definition times_number :: "number \<Rightarrow> number \<Rightarrow> number" where
  "x * y = (if isNaN x \<or> isNaN y then NaN
     else if isInf x \<or> isInf y then
       (if is_zero x \<or> is_zero y then NaN else Infinity (negative x \<noteq> negative y))
     else if val x * val y = 0 then zero (negative x \<noteq> negative y)
     else rnd (val x * val y))"

definition divide_number :: "number \<Rightarrow> number \<Rightarrow> number" where
  "x div y = (if isNaN x \<or> isNaN y then NaN
     else if isInf x then (if isInf y then NaN else Infinity (negative x \<noteq> negative y))
     else if isInf y then zero (negative x \<noteq> negative y)
     else if is_zero y then (if is_zero x then NaN else Infinity (negative x \<noteq> negative y))
     else if is_zero x then zero (negative x \<noteq> negative y)
     else rnd (val x / val y))"

definition inverse_number :: "number \<Rightarrow> number" where
  "inverse x = Fin 1 div x"

text \<open>The comparisons \<^verbatim>\<open><\<close> and \<^verbatim>\<open><=\<close>: false whenever an operand is NaN.\<close>

definition less_number :: "number \<Rightarrow> number \<Rightarrow> bool" where
  "x < y = (if isNaN x \<or> isNaN y then False
     else if isInf x then negative x \<and> \<not> (isInf y \<and> negative y)
     else if isInf y then \<not> negative y
     else val x < val y)"

definition less_eq_number :: "number \<Rightarrow> number \<Rightarrow> bool" where
  "x \<le> y = (\<not> isNaN x \<and> \<not> isNaN y \<and> \<not> y < x)"

instance ..

end

text \<open>\<^verbatim>\<open>Math.max\<close> and \<^verbatim>\<open>Math.min\<close> of two arguments: NaN if one is, \<open>+0\<close> above \<open>-0\<close>.\<close>

definition Math_max :: "number \<Rightarrow> number \<Rightarrow> number" where
  "Math_max x y = (if isNaN x \<or> isNaN y then NaN
     else if x < y then y else if y < x then x
     else if negative x then y else x)"

definition Math_min :: "number \<Rightarrow> number \<Rightarrow> number" where
  "Math_min x y = (if isNaN x \<or> isNaN y then NaN
     else if x < y then x else if y < x then y
     else if negative x then x else y)"

text \<open>A number is truthy unless it is \<open>+0\<close>, \<open>-0\<close> or NaN.\<close>

definition truthy :: "number \<Rightarrow> bool" where
  "truthy x = (\<not> isNaN x \<and> \<not> is_zero x)"

text \<open>\<^verbatim>\<open>Number(b)\<close> of a BigInt \<open>b\<close>: the nearest double.\<close>

definition Number :: "int \<Rightarrow> number" where
  "Number b = rnd (of_int b)"

text \<open>
  \<^verbatim>\<open>Array(len)\<close> raises a RangeError unless \<open>len\<close> is an integer from \<open>0\<close> to
  \<open>2^32 - 1\<close>; \<open>array_length\<close> gives the length of the array it makes.
\<close>

definition array_length :: "number \<Rightarrow> nat option" where
  "array_length len = (case len of
       Fin q \<Rightarrow> if of_int \<lfloor>q\<rfloor> = q \<and> 0 \<le> q \<and> q < 2 ^ 32 then Some (nat \<lfloor>q\<rfloor>) else None
     | NegZero \<Rightarrow> Some 0
     | _ \<Rightarrow> None)"

definition startsWith :: "string \<Rightarrow> string \<Rightarrow> bool" where
  "startsWith s p = (take (length p) s = p)"


section \<open>The estimator's input and output\<close>

text \<open>
  Modelled from the spec: the enumeration \<^verbatim>\<open>GGMLQuantizationType\<close> is imported from
  another package. The estimator names its variant \<^verbatim>\<open>F16\<close>; the spec lists the 32-bit
  float, the 16-bit float and block-quantized formats, which are told apart here by
  their number.
\<close>

datatype GGMLQuantizationType = F32 | F16 | Quantized nat

text \<open>
  A metadata value is a string, a number or a sequence of numbers. The metadata is
  indexed by string keys; a key that is not there reads as \<^verbatim>\<open>undefined\<close>.
\<close>

datatype MetadataValue = Str string | Num number | Arr "number list"

type_synonym metadata = "string \<rightharpoonup> MetadataValue"

record TensorInfo =
  name :: string
  shape :: "int list"
  dtype :: GGMLQuantizationType

text \<open>The estimator reads both fields of the configuration through \<^verbatim>\<open>??\<close>.\<close>

record RuntimeConfig =
  kvTypeK :: "GGMLQuantizationType option"
  kvTypeV :: "GGMLQuantizationType option"

record Memory =
  perToken :: number
  weight :: number

record Compute =
  gFloatOps :: number

record RuntimeRequirementEstimation =
  memory :: Memory
  compute :: Compute

text \<open>
  The two ways the call can raise: the \<^verbatim>\<open>Error\<close> thrown for a rejected architecture,
  with its message, and the RangeError of \<^verbatim>\<open>Array(n_layer)\<close>.
\<close>

datatype error = Error string | RangeError

definition TO_MEGA :: number where
  "TO_MEGA = rnd (1 / 1000000)"

definition TO_GIGA :: number where
  "TO_GIGA = rnd (1 / 1000000000)"

section \<open>Reading the metadata\<close>

text \<open>
  \<^verbatim>\<open>(metadata[key] as number) ?? d\<close>: the cast declares a number and checks nothing. On
  metadata whose fields have the declared types (\<open>fields_as_declared\<close> below) this is what
  the code reads. A value of another type is kept by \<^verbatim>\<open>??\<close> in the code and coerced by
  the arithmetic that follows; that coercion is not modelled: such a value reads as
  absent here, and the model stands for the code on the metadata that satisfy
  \<open>fields_as_declared\<close>.
\<close>

definition number_at :: "metadata \<Rightarrow> string \<Rightarrow> number option" where
  "number_at metadata key = (case metadata key of Some (Num v) \<Rightarrow> Some v | _ \<Rightarrow> None)"

definition arch_of :: "metadata \<Rightarrow> string" where
  "arch_of metadata =
     (case metadata ''general.architecture'' of Some (Str s) \<Rightarrow> s | _ \<Rightarrow> ''unknown'')"

definition n_embd :: "metadata \<Rightarrow> string \<Rightarrow> number" where
  "n_embd metadata arch =
     (case number_at metadata (arch @ ''.embedding_length'') of Some v \<Rightarrow> v | None \<Rightarrow> Fin 0)"

definition n_head :: "metadata \<Rightarrow> string \<Rightarrow> number" where
  "n_head metadata arch =
     (case number_at metadata (arch @ ''.attention.head_count'') of Some v \<Rightarrow> v | None \<Rightarrow> Fin 0)"

definition n_embd_head_k :: "metadata \<Rightarrow> string \<Rightarrow> number" where
  "n_embd_head_k metadata arch =
     (case number_at metadata (arch @ ''.attention.key_length'') of
        Some v \<Rightarrow> v | None \<Rightarrow> n_embd metadata arch / n_head metadata arch)"

definition n_embd_head_v :: "metadata \<Rightarrow> string \<Rightarrow> number" where
  "n_embd_head_v metadata arch =
     (case number_at metadata (arch @ ''.attention.value_length'') of
        Some v \<Rightarrow> v | None \<Rightarrow> n_embd metadata arch / n_head metadata arch)"

text \<open>\<^verbatim>\<open>n_head_kv\<close> is a number or an array of numbers; when absent, the empty array.\<close>

definition n_head_kv :: "metadata \<Rightarrow> string \<Rightarrow> MetadataValue" where
  "n_head_kv metadata arch =
     (case metadata (arch @ ''.attention.head_count_kv'') of
        Some (Num v) \<Rightarrow> Num v | Some (Arr vs) \<Rightarrow> Arr vs | _ \<Rightarrow> Arr [])"

definition n_layer :: "metadata \<Rightarrow> string \<Rightarrow> number" where
  "n_layer metadata arch =
     (case number_at metadata (arch @ ''.block_count'') of Some v \<Rightarrow> v | None \<Rightarrow> Fin 0)"

definition n_expert :: "metadata \<Rightarrow> string \<Rightarrow> number" where
  "n_expert metadata arch =
     (case number_at metadata (arch @ ''.expert_count'') of Some v \<Rightarrow> v | None \<Rightarrow> Fin 1)"

definition n_expert_used :: "metadata \<Rightarrow> string \<Rightarrow> number" where
  "n_expert_used metadata arch =
     (case number_at metadata (arch @ ''.expert_used_count'') of Some v \<Rightarrow> v | None \<Rightarrow> Fin 1)"

definition n_ff :: "metadata \<Rightarrow> string \<Rightarrow> number" where
  "n_ff metadata arch =
     (case number_at metadata (arch @ ''.feed_forward_length'') of Some v \<Rightarrow> v | None \<Rightarrow> Fin 1)"

definition n_vocab :: "metadata \<Rightarrow> string \<Rightarrow> number" where
  "n_vocab metadata arch =
     (case number_at metadata (arch @ ''.vocab_size'') of Some v \<Rightarrow> v | None \<Rightarrow> Fin 1)"

text \<open>
  The types that the estimator declares for the fields it reads: the architecture name
  is a string, \<^verbatim>\<open>head_count_kv\<close> a number or an array of numbers, each of the other nine
  fields a number; every field may be absent. Keys that the estimator does not read are
  free.
\<close>

definition number_or_absent :: "metadata \<Rightarrow> string \<Rightarrow> bool" where
  "number_or_absent metadata key =
     (case metadata key of None \<Rightarrow> True | Some (Num v) \<Rightarrow> True | Some _ \<Rightarrow> False)"

definition fields_as_declared :: "metadata \<Rightarrow> bool" where
  "fields_as_declared metadata =
     (let arch = arch_of metadata in
        (case metadata ''general.architecture'' of
           None \<Rightarrow> True | Some (Str s) \<Rightarrow> True | Some _ \<Rightarrow> False)
      \<and> number_or_absent metadata (arch @ ''.embedding_length'')
      \<and> number_or_absent metadata (arch @ ''.attention.head_count'')
      \<and> number_or_absent metadata (arch @ ''.attention.key_length'')
      \<and> number_or_absent metadata (arch @ ''.attention.value_length'')
      \<and> (case metadata (arch @ ''.attention.head_count_kv'') of
           Some (Str s) \<Rightarrow> False | _ \<Rightarrow> True)
      \<and> number_or_absent metadata (arch @ ''.block_count'')
      \<and> number_or_absent metadata (arch @ ''.expert_count'')
      \<and> number_or_absent metadata (arch @ ''.expert_used_count'')
      \<and> number_or_absent metadata (arch @ ''.feed_forward_length'')
      \<and> number_or_absent metadata (arch @ ''.vocab_size''))"

section \<open>The loops of the estimator\<close>

text \<open>
  \<^verbatim>\<open>for (let i = 0; i < n_layer; i++) if (n_head_kv[i]) n_head_kv_arr[i] = n_head_kv[i]\<close>;
  an index beyond the end of \<^verbatim>\<open>n_head_kv\<close> reads \<^verbatim>\<open>undefined\<close>, which is falsy.
\<close>

function fill_from_array :: "number list \<Rightarrow> nat \<Rightarrow> nat \<Rightarrow> number list \<Rightarrow> number list" where
  "fill_from_array kv i n arr =
     (if i < n
      then fill_from_array kv (Suc i) n
             (if i < length kv \<and> truthy (kv ! i) then arr[i := kv ! i] else arr)
      else arr)"
  by pat_completeness auto
termination
  by (relation "measure (\<lambda>(kv, i, n, arr). n - i)") auto

declare fill_from_array.simps [simp del]

text \<open>\<^verbatim>\<open>for (let i = 0; i < n_layer; i++) n_head_kv_arr[i] = n_head_kv\<close>\<close>

function fill_from_scalar :: "number \<Rightarrow> nat \<Rightarrow> nat \<Rightarrow> number list \<Rightarrow> number list" where
  "fill_from_scalar kv i n arr =
     (if i < n then fill_from_scalar kv (Suc i) n (arr[i := kv]) else arr)"
  by pat_completeness auto
termination
  by (relation "measure (\<lambda>(kv, i, n, arr). n - i)") auto

declare fill_from_scalar.simps [simp del]

text \<open>
  \<^verbatim>\<open>Array(n_layer).fill(n_head)\<close>, then one of the two loops according to
  \<^verbatim>\<open>Array.isArray(n_head_kv)\<close>. (\<open>n_head_kv\<close> is never a string; that case only
  completes the function.)
\<close>

definition n_head_kv_arr :: "nat \<Rightarrow> number \<Rightarrow> MetadataValue \<Rightarrow> number list" where
  "n_head_kv_arr n head kv =
     (case kv of
        Arr vs \<Rightarrow> fill_from_array vs 0 n (replicate n head)
      | Num v \<Rightarrow> fill_from_scalar v 0 n (replicate n head)
      | Str s \<Rightarrow> replicate n head)"

text \<open>
  The loop over the layers that accumulates \<^verbatim>\<open>cacheMBytesK\<close> and \<^verbatim>\<open>cacheMBytesV\<close>;
  \<open>sizeK\<close> and \<open>sizeV\<close> are \<^verbatim>\<open>GGML_QUANT_SIZES[kvTypeK]\<close> and \<^verbatim>\<open>GGML_QUANT_SIZES[kvTypeV]\<close>.
\<close>

function cacheMBytes_loop ::
  "number \<Rightarrow> number \<Rightarrow> number list \<Rightarrow> number \<Rightarrow> number \<Rightarrow> nat \<Rightarrow> nat \<Rightarrow> number \<times> number
     \<Rightarrow> number \<times> number" where
  "cacheMBytes_loop head_k head_v arr sizeK sizeV i n (cacheMBytesK, cacheMBytesV) =
     (if i < n then
        let n_embd_k_gqa = head_k * arr ! i;
            n_embd_v_gqa = head_v * arr ! i
        in cacheMBytes_loop head_k head_v arr sizeK sizeV (Suc i) n
             (cacheMBytesK + n_embd_k_gqa * (sizeK / Fin 8) * TO_MEGA,
              cacheMBytesV + n_embd_v_gqa * (sizeV / Fin 8) * TO_MEGA)
      else (cacheMBytesK, cacheMBytesV))"
  by pat_completeness auto
termination
  by (relation "measure (\<lambda>(head_k, head_v, arr, sizeK, sizeV, i, n, acc). n - i)") auto

declare cacheMBytes_loop.simps [simp del]

text \<open>
  The loop over the tensors; \<open>sizes\<close> is the table \<^verbatim>\<open>GGML_QUANT_SIZES\<close>, which is not
  part of the estimator's file and is a parameter here. (A type missing from the table
  reads \<^verbatim>\<open>undefined\<close>, and \<^verbatim>\<open>undefined / 8\<close> is NaN: such an entry is \<open>NaN\<close>.)
\<close>

fun mBytesWeight_loop ::
  "(GGMLQuantizationType \<Rightarrow> number) \<Rightarrow> TensorInfo list \<Rightarrow> number \<Rightarrow> number" where
  "mBytesWeight_loop sizes [] mBytesWeight = mBytesWeight"
| "mBytesWeight_loop sizes (tensorInfo # rest) mBytesWeight =
     (let nElem = Number (foldl (\<lambda>a b. a * b) 1 (shape tensorInfo));
          tensorSizeInBytes = nElem * (sizes (dtype tensorInfo) / Fin 8)
      in mBytesWeight_loop sizes rest (mBytesWeight + tensorSizeInBytes * TO_MEGA))"

definition moe_ratio :: "metadata \<Rightarrow> string \<Rightarrow> number" where
  "moe_ratio metadata arch =
     Math_max (Fin 1)
       (Math_min (Fin 1) (n_expert_used metadata arch) / Math_min (Fin 1) (n_expert metadata arch))"

definition floatOpsMatMul :: "number \<Rightarrow> number \<Rightarrow> number \<Rightarrow> number" where
  "floatOpsMatMul x y z = Fin 2 * x * y * z"

text \<open>The body of the compute loop: \<^verbatim>\<open>floatOpsLayer\<close> after its three additions.\<close>

definition floatOpsLayer :: "number \<Rightarrow> number \<Rightarrow> number \<Rightarrow> number" where
  "floatOpsLayer embd ff ratio =
     Fin 0 + Fin 1000 * embd + Fin 4 * Fin 3 * embd * embd + Fin 4 * Fin 2 * embd * ff * ratio"

function gFloatOps_loop :: "number \<Rightarrow> number \<Rightarrow> number \<Rightarrow> nat \<Rightarrow> nat \<Rightarrow> number \<Rightarrow> number" where
  "gFloatOps_loop embd ff ratio i n acc =
     (if i < n
      then gFloatOps_loop embd ff ratio (Suc i) n (acc + floatOpsLayer embd ff ratio * TO_GIGA)
      else acc)"
  by pat_completeness auto
termination
  by (relation "measure (\<lambda>(embd, ff, ratio, i, n, acc). n - i)") auto

declare gFloatOps_loop.simps [simp del]

section \<open>The estimator\<close>

definition unsupported_message :: "string \<Rightarrow> string" where
  \<open>unsupported_message arch =
     ''Memory usage estimation for arch "'' @ arch @ ''" is not supported''\<close>

definition estimateRuntimeRequirement ::
  "(GGMLQuantizationType \<Rightarrow> number) \<Rightarrow> RuntimeConfig \<Rightarrow> metadata \<Rightarrow> TensorInfo list option
     \<Rightarrow> error + RuntimeRequirementEstimation" where
  "estimateRuntimeRequirement GGML_QUANT_SIZES config metadata tensorInfos =
     (let typeK = (case kvTypeK config of Some t \<Rightarrow> t | None \<Rightarrow> F16);
          typeV = (case kvTypeV config of Some t \<Rightarrow> t | None \<Rightarrow> F16);
          arch = arch_of metadata
      in if startsWith arch ''mamba'' \<or> startsWith arch ''rwkv''
         then Inl (Error (unsupported_message arch))
         else case array_length (n_layer metadata arch) of
           None \<Rightarrow> Inl RangeError
         | Some n \<Rightarrow>
             let arr = n_head_kv_arr n (n_head metadata arch) (n_head_kv metadata arch);
                 (cacheMBytesK, cacheMBytesV) =
                    cacheMBytes_loop (n_embd_head_k metadata arch) (n_embd_head_v metadata arch) arr
                      (GGML_QUANT_SIZES typeK) (GGML_QUANT_SIZES typeV) 0 n (Fin 0, Fin 0);
                 mBytesWeight =
                    mBytesWeight_loop GGML_QUANT_SIZES
                      (case tensorInfos of Some ts \<Rightarrow> ts | None \<Rightarrow> []) (Fin 0);
                 loopOps =
                    gFloatOps_loop (n_embd metadata arch) (n_ff metadata arch)
                      (moe_ratio metadata arch) 0 n (Fin 0);
                 total = loopOps
                    + floatOpsMatMul (n_embd metadata arch) (n_vocab metadata arch) (Fin 1) * TO_GIGA
             in Inr \<lparr>memory = \<lparr>perToken = cacheMBytesK + cacheMBytesV, weight = mBytesWeight\<rparr>,
                     compute = \<lparr>gFloatOps = total\<rparr>\<rparr>)"

section \<open>The quantities of the specification\<close>

text \<open>
  The effective \<^verbatim>\<open>head_count_kv\<close> of layer \<open>i\<close> in the words of the specification: the
  \<open>i\<close>-th entry of a sequence if it is present and truthy, else \<^verbatim>\<open>head_count\<close>; a scalar
  for every layer; \<^verbatim>\<open>head_count\<close> when the field is absent.
\<close>

definition effective_head_count_kv :: "metadata \<Rightarrow> string \<Rightarrow> nat \<Rightarrow> number" where
  "effective_head_count_kv metadata arch i =
     (case metadata (arch @ ''.attention.head_count_kv'') of
        Some (Arr vs) \<Rightarrow> if i < length vs \<and> truthy (vs ! i) then vs ! i else n_head metadata arch
      | Some (Num v) \<Rightarrow> v
      | _ \<Rightarrow> n_head metadata arch)"

text \<open>
  Approximate equality of a number and a real value (to nine significant digits), and a
  number that is finite and greater than zero.
\<close>

definition close_to :: "number \<Rightarrow> real \<Rightarrow> bool" where
  "close_to x r = (case x of Fin q \<Rightarrow> \<bar>q - r\<bar> \<le> \<bar>r\<bar> / 10 ^ 9 | _ \<Rightarrow> False)"

definition finite_positive :: "number \<Rightarrow> bool" where
  "finite_positive x = (case x of Fin q \<Rightarrow> 0 < q | _ \<Rightarrow> False)"

text \<open>The unit roundoff of double precision: half the spacing of the doubles next to 1.\<close>

definition unit_roundoff :: real where
  "unit_roundoff = 1 / 2 ^ 53"

text \<open>Half the spacing of the subnormal doubles: the most that rounding adds near zero.\<close>

definition underflow_unit :: real where
  "underflow_unit = 2 powi (- 1075)"

text \<open>\<^verbatim>\<open>Number.isFinite\<close>: neither NaN nor an infinity.\<close>

fun isFinite :: "number \<Rightarrow> bool" where
  "isFinite (Fin q) = True"
| "isFinite NegZero = True"
| "isFinite _ = False"

section \<open>Example inputs\<close>

text \<open>
  The concrete scenario of the specification: architecture \<^verbatim>\<open>llama\<close>, embedding length
  4096, 32 heads, a scalar \<^verbatim>\<open>head_count_kv\<close> of 32, key and value length 128, with the
  block count left open.
\<close>

definition llama_metadata :: "real \<Rightarrow> metadata" where
  "llama_metadata block_count =
     [''general.architecture'' \<mapsto> Str ''llama'',
      ''llama.embedding_length'' \<mapsto> Num (Fin 4096),
      ''llama.attention.head_count'' \<mapsto> Num (Fin 32),
      ''llama.attention.head_count_kv'' \<mapsto> Num (Fin 32),
      ''llama.block_count'' \<mapsto> Num (Fin block_count),
      ''llama.attention.key_length'' \<mapsto> Num (Fin 128),
      ''llama.attention.value_length'' \<mapsto> Num (Fin 128)]"

text \<open>
  Three layers with a per-layer \<^verbatim>\<open>head_count_kv\<close> that has a falsy entry and is one entry
  short; key and value length are absent.
\<close>

definition layered_metadata :: metadata where
  "layered_metadata =
     [''general.architecture'' \<mapsto> Str ''llama'',
      ''llama.embedding_length'' \<mapsto> Num (Fin 4096),
      ''llama.attention.head_count'' \<mapsto> Num (Fin 32),
      ''llama.attention.head_count_kv'' \<mapsto> Arr [Fin 8, Fin 0],
      ''llama.block_count'' \<mapsto> Num (Fin 3)]"


definition f16_config :: RuntimeConfig where
  "f16_config = \<lparr>kvTypeK = Some F16, kvTypeV = Some F16\<rparr>"

text \<open>A table of bit widths that gives 32 bits to \<open>F32\<close> and 16 bits to every other type.\<close>

definition example_sizes :: "GGMLQuantizationType \<Rightarrow> number" where
  "example_sizes t = (case t of F32 \<Rightarrow> Fin 32 | _ \<Rightarrow> Fin 16)"

definition example_tensors :: "TensorInfo list" where
  "example_tensors =
     [\<lparr>name = ''token_embd.weight'', shape = [4096, 32000], dtype = F16\<rparr>,
      \<lparr>name = ''output_norm.weight'', shape = [4096], dtype = F32\<rparr>]"

section \<open>Facts about the arithmetic\<close>

text \<open>
  The rounding is to the nearest double: \<open>ilog2\<close> finds the binade of a magnitude, a
  normal magnitude has 53 significant bits in units of the spacing \<open>u\<close> of its binade,
  the result is a whole number of units at most half a unit away, and a tie goes to the
  even neighbour.
\<close>

lemma bitlen_nat_bounds: "0 < n \<Longrightarrow> 2 ^ (bitlen_nat n - 1) \<le> n \<and> n < 2 ^ bitlen_nat n"
proof (induction n rule: bitlen_nat.induct)
  case (1 n)
  show ?case
  proof (cases "n div 2 = 0")
    case True
    with "1.prems" have "n = 1" by (simp add: div_eq_0_iff) 
    then show ?thesis by (simp add: bitlen_nat.simps)
  next
    case False
    then have h: "0 < n div 2" by simp
    from "1.prems" have n0: "n \<noteq> 0" by simp
    from "1.IH" [OF n0 h] have ih: "2 ^ (bitlen_nat (n div 2) - 1) \<le> n div 2" "n div 2 < 2 ^ bitlen_nat (n div 2)"
      by simp_all
    have pos: "0 < bitlen_nat (n div 2)"
      using h by (subst bitlen_nat.simps) simp
    have b: "bitlen_nat n = Suc (bitlen_nat (n div 2))"
      using n0 by (subst bitlen_nat.simps) simp
    have "2 ^ (bitlen_nat n - 1) = 2 * 2 ^ (bitlen_nat (n div 2) - 1)"
      using pos unfolding b by (cases "bitlen_nat (n div 2)") simp_all
    also have "\<dots> \<le> 2 * (n div 2)" using ih(1) by simp
    also have "\<dots> \<le> n" by simp
    finally have lo: "2 ^ (bitlen_nat n - 1) \<le> n" .
    have "n < 2 * (n div 2) + 2" by presburger
    also have "\<dots> \<le> 2 * 2 ^ bitlen_nat (n div 2)" using ih(2) by simp
    finally have "n < 2 ^ bitlen_nat n" unfolding b by simp
    with lo show ?thesis ..
  qed
qed

lemma ilog2_bounds:
  assumes "0 < q"
  shows "2 powi ilog2 q \<le> q \<and> q < 2 powi (ilog2 q + 1)"
proof (cases "1 \<le> q")
  case True
  define m where "m = nat \<lfloor>q\<rfloor>"
  have m: "0 < m" "real m \<le> q" "q < real m + 1"
    using True unfolding m_def by (simp_all add: floor_less_iff)
  from bitlen_nat_bounds [OF m(1)]
  have b: "(2::real) ^ (bitlen_nat m - 1) \<le> real m" "real m + 1 \<le> 2 ^ bitlen_nat m"
    by (metis of_nat_le_iff of_nat_numeral of_nat_power,
        metis Suc_leI of_nat_Suc of_nat_le_iff of_nat_numeral of_nat_power add.commute plus_1_eq_Suc)
  have pos: "0 < bitlen_nat m"
    using m(1) by (subst bitlen_nat.simps) simp
  have e: "ilog2 q = int (bitlen_nat m - 1)" "ilog2 q + 1 = int (bitlen_nat m)"
    using True pos by (simp_all add: ilog2_def m_def)
  have p: "(2::real) powi ilog2 q = 2 ^ (bitlen_nat m - 1)" "(2::real) powi (ilog2 q + 1) = 2 ^ bitlen_nat m"
    unfolding e(2) unfolding e(1) by simp_all
  show ?thesis
    unfolding p using b m by linarith
next
  case False
  define m where "m = nat (\<lceil>1 / q\<rceil> - 1)"
  have q1: "1 < 1 / q" using assms False by simp
  have m: "0 < m" "real m < 1 / q" "1 / q \<le> real m + 1"
    using q1 unfolding m_def by (simp_all add: less_ceiling_iff) linarith+
  from bitlen_nat_bounds [OF m(1)]
  have b: "(2::real) ^ (bitlen_nat m - 1) \<le> real m" "real m + 1 \<le> 2 ^ bitlen_nat m"
    by (metis of_nat_le_iff of_nat_numeral of_nat_power,
        metis Suc_leI of_nat_Suc of_nat_le_iff of_nat_numeral of_nat_power add.commute plus_1_eq_Suc)
  have pos: "0 < bitlen_nat m"
    using m(1) by (subst bitlen_nat.simps) simp
  have e: "ilog2 q = - int (bitlen_nat m)"
    using False by (simp add: ilog2_def m_def)
  have e1: "ilog2 q + 1 = - int (bitlen_nat m - 1)"
    using pos unfolding e by simp
  have lo: "1 / 2 ^ bitlen_nat m \<le> q"
  proof -
    have "1 / q \<le> 2 ^ bitlen_nat m" using m(3) b(2) by linarith
    then show ?thesis using assms
      by (simp add: field_simps)
  qed
  have hi: "q < 1 / 2 ^ (bitlen_nat m - 1)"
  proof -
    have "2 ^ (bitlen_nat m - 1) < 1 / q" using m(2) b(1) by linarith
    then show ?thesis using assms
      by (simp add: field_simps)
  qed
  have p: "(2::real) powi ilog2 q = 1 / 2 ^ bitlen_nat m"
    "(2::real) powi (ilog2 q + 1) = 1 / 2 ^ (bitlen_nat m - 1)"
    unfolding e1 unfolding e by (simp_all add: power_int_minus field_simps)
  show ?thesis
    unfolding p using lo hi by simp
qed

lemma round_even_near: "\<bar>real_of_int (round_even k) - k\<bar> \<le> 1 / 2"
  unfolding round_even_def Let_def by (auto simp: abs_if) linarith+

lemma round_even_tie: "k - real_of_int \<lfloor>k\<rfloor> = 1 / 2 \<Longrightarrow> even (round_even k)"
  by (simp add: round_even_def Let_def)

lemma round_mag_nearest:
  assumes "0 < q"
  defines "u \<equiv> 2 powi (max (ilog2 q) (- 1022) - 52)"
  shows "round_mag q = real_of_int (round_even (q / u)) * u"
    and "\<bar>round_mag q - q\<bar> \<le> u / 2"
    and "- 1022 \<le> ilog2 q \<Longrightarrow> 2 ^ 52 \<le> q / u \<and> q / u < 2 ^ 53"
proof -
  have u: "0 < u"
    unfolding u_def by (simp add: zero_less_power_int)
  show r: "round_mag q = real_of_int (round_even (q / u)) * u"
    using assms(1) by (simp add: round_mag_def Let_def u_def)
  have "\<bar>round_mag q - q\<bar> = u * \<bar>real_of_int (round_even (q / u)) - q / u\<bar>"
    using u unfolding r by (simp add: abs_mult [symmetric] field_simps)
  also have "\<dots> \<le> u * (1 / 2)"
    using u round_even_near [of "q / u"] by (intro mult_left_mono) simp_all
  finally show "\<bar>round_mag q - q\<bar> \<le> u / 2"
    by simp
  show "2 ^ 52 \<le> q / u \<and> q / u < 2 ^ 53" if "- 1022 \<le> ilog2 q"
  proof -
    define p :: real where "p = 2 powi ilog2 q"
    have p: "0 < p" "p \<le> q" "q < 2 * p"
      using ilog2_bounds [OF assms(1)] unfolding p_def
      by (simp_all add: zero_less_power_int power_int_add)
    have "u = p / 2 ^ 52"
      using that unfolding u_def p_def by (simp add: max_def power_int_diff)
    then have "q / u = q / p * 2 ^ 52"
      using p(1) by (simp add: field_simps)
    moreover have "1 * 2 ^ 52 \<le> q / p * 2 ^ 52" "q / p * 2 ^ 52 < 2 * 2 ^ 52"
      using p by (simp_all add: field_simps)
    ultimately show ?thesis
      by (simp del: times_divide_eq_left)
  qed
qed

text \<open>Evaluating the operations on numerals.\<close>

lemmas fp_eval = rnd_def round_mag_def ilog2_def round_even_def bitlen_nat.simps zero_def

lemmas fp_ops = plus_number_def times_number_def divide_number_def is_zero_def

lemma TO_MEGA_eq: "TO_MEGA = Fin (4722366482869645 / 4722366482869645213696)"
  by (simp add: TO_MEGA_def fp_eval)

lemma TO_GIGA_eq: "TO_GIGA = Fin (4835703278458517 / 4835703278458516698824704)"
  by (simp add: TO_GIGA_def fp_eval)

lemma rnd_one: "rnd 1 = Fin 1"
  by (simp add: fp_eval)

lemma one_div_one: "Fin 1 / Fin 1 = Fin 1"
  by (simp add: divide_number_def is_zero_def rnd_one)

lemma Fin_zero_plus_zero: "Fin 0 + Fin 0 = Fin 0"
  by (simp add: plus_number_def zero_def)


lemma Fin_one_le: "Fin 1 \<le> Fin 1"
  by (simp add: less_eq_number_def less_number_def)

lemma min_one: "Fin 1 \<le> x \<Longrightarrow> Math_min (Fin 1) x = Fin 1"
  by (cases x) (auto simp: Math_min_def less_eq_number_def less_number_def)

lemma max_one: "Math_max (Fin 1) (Fin 1) = Fin 1"
  by (simp add: Math_max_def less_number_def)






section \<open>The rounding error of an accumulation\<close>

text \<open>
  A result is rounded with a relative error of at most \<open>unit_roundoff\<close> in the normal
  range and an absolute error of at most \<open>underflow_unit\<close> below it, so that rounding a
  real number \<open>q\<close> that does not overflow moves it by at most
  \<open>unit_roundoff * \<bar>q\<bar> + underflow_unit\<close>. A total accumulated from zero over \<open>m\<close> equal
  terms stays within \<open>2 m unit_roundoff\<close> of the exact multiple, relatively, and
  \<open>2 m underflow_unit\<close>, absolutely.
\<close>

lemma ilog2_normal:
  assumes "2 powi (- 1022) \<le> q"
  shows "- 1022 \<le> ilog2 q"
proof -
  have q: "0 < q"
    using assms by (rule less_le_trans [rotated]) simp
  have "(2::real) powi (- 1022) < 2 powi (ilog2 q + 1)"
    using ilog2_bounds [OF q] assms by linarith
  then have "\<not> ilog2 q + 1 \<le> - 1022"
    using power_int_increasing [of "ilog2 q + 1" "- 1022" "2 :: real"] by auto
  then show ?thesis by simp
qed

lemma round_mag_relative:
  assumes "2 powi (- 1022) \<le> q"
  shows "q * (1 - unit_roundoff) \<le> round_mag q \<and> round_mag q \<le> q * (1 + unit_roundoff)"
proof -
  have q: "0 < q"
    using assms by (rule less_le_trans [rotated]) simp
  have n: "- 1022 \<le> ilog2 q"
    using assms by (rule ilog2_normal)
  define U :: real where "U = 2 powi (max (ilog2 q) (- 1022) - 52)"
  have "U = 2 powi ilog2 q / 2 ^ 52"
    using n unfolding U_def by (simp add: max_def power_int_diff)
  moreover have "2 powi ilog2 q \<le> q"
    using ilog2_bounds [OF q] by simp
  ultimately have "U / 2 \<le> q * unit_roundoff"
    by (simp add: unit_roundoff_def field_simps)
  moreover have "\<bar>round_mag q - q\<bar> \<le> U / 2"
    using round_mag_nearest(2) [OF q] unfolding U_def .
  ultimately have "\<bar>round_mag q - q\<bar> \<le> q * unit_roundoff"
    by linarith
  then have "round_mag q - q \<le> q * unit_roundoff" "q - round_mag q \<le> q * unit_roundoff"
    by linarith+
  then show ?thesis
    by (simp add: algebra_simps)
qed

lemma unit_roundoff_bounds: "0 < unit_roundoff" "unit_roundoff < 1"
  by (simp_all add: unit_roundoff_def)

lemma power_one_plus_le:
  fixes x :: real
  assumes "0 \<le> x" "real k * x \<le> 1 / 2"
  shows "(1 + x) ^ k \<le> 1 + 2 * real k * x"
  using assms(2)
proof (induction k)
  case 0
  then show ?case by simp
next
  case (Suc k)
  have kx: "real k * x \<le> 1 / 2"
    using Suc.prems assms(1) by (simp add: algebra_simps) 
  have "(1 + x) ^ Suc k = (1 + x) ^ k * (1 + x)"
    by simp
  also have "\<dots> \<le> (1 + 2 * real k * x) * (1 + x)"
    using Suc.IH [OF kx] assms(1) by (intro mult_right_mono) simp_all
  also have "\<dots> = 1 + 2 * real k * x + x + (2 * (real k * x)) * x"
    by (simp add: algebra_simps)
  also have "\<dots> \<le> 1 + 2 * real k * x + x + 1 * x"
    using kx assms(1) by (intro add_left_mono mult_right_mono) simp_all
  also have "\<dots> = 1 + 2 * real (Suc k) * x"
    by (simp add: algebra_simps)
  finally show ?case .
qed

lemma power_roundoff_le_2: "k \<le> 2 ^ 32 \<Longrightarrow> (1 + unit_roundoff) ^ k \<le> 2"
proof -
  assume k: "k \<le> 2 ^ 32"
  then have "real k \<le> 2 ^ 32"
    by (metis of_nat_le_iff of_nat_numeral of_nat_power)
  then have h: "real k * unit_roundoff \<le> 1 / 2 ^ 21"
    by (simp add: unit_roundoff_def field_simps)
  then have "(1 + unit_roundoff) ^ k \<le> 1 + 2 * real k * unit_roundoff"
    by (intro power_one_plus_le) (simp_all add: unit_roundoff_def)
  with h show ?thesis
    by simp
qed

lemma underflow_unit_pos: "0 < underflow_unit"
  by (simp add: underflow_unit_def)

lemma ilog2_subnormal:
  assumes "0 < q" "q < 2 powi (- 1022)"
  shows "ilog2 q < - 1022"
proof (rule ccontr)
  assume "\<not> ilog2 q < - 1022"
  then have "(2::real) powi (- 1022) \<le> 2 powi ilog2 q"
    by (intro power_int_increasing) simp_all
  with ilog2_bounds [OF assms(1)] assms(2) show False
    by linarith
qed

lemma round_mag_error:
  assumes "0 < q"
  shows "\<bar>round_mag q - q\<bar> \<le> unit_roundoff * q + underflow_unit"
proof (cases "2 powi (- 1022) \<le> q")
  case True
  from round_mag_relative [OF True] have "\<bar>round_mag q - q\<bar> \<le> unit_roundoff * q"
    by (simp add: abs_le_iff algebra_simps)
  with underflow_unit_pos show ?thesis
    by linarith
next
  case False
  then have "ilog2 q < - 1022"
    using assms by (intro ilog2_subnormal) simp_all
  then have "max (ilog2 q) (- 1022) - 52 = - 1074"
    by simp
  with round_mag_nearest(2) [OF assms] have "\<bar>round_mag q - q\<bar> \<le> 2 powi (- 1074) / 2"
    by simp
  also have "\<dots> = underflow_unit"
    by (simp add: underflow_unit_def)
  finally have "\<bar>round_mag q - q\<bar> \<le> underflow_unit" .
  moreover have "0 \<le> unit_roundoff * q"
    using assms unit_roundoff_bounds by simp
  ultimately show ?thesis
    by linarith
qed

lemma rnd_error:
  assumes "\<bar>q\<bar> \<le> 2 ^ 1023"
  shows "isFinite (rnd q) \<and> \<bar>val (rnd q) - q\<bar> \<le> unit_roundoff * \<bar>q\<bar> + underflow_unit"
proof (cases "q = 0")
  case True
  then show ?thesis
    using underflow_unit_pos by (simp add: rnd_def round_mag_def zero_def)
next
  case False
  define m where "m = round_mag \<bar>q\<bar>"
  have q: "0 < \<bar>q\<bar>"
    using False by simp
  have e: "\<bar>m - \<bar>q\<bar>\<bar> \<le> unit_roundoff * \<bar>q\<bar> + underflow_unit"
    unfolding m_def by (rule round_mag_error [OF q])
  have "unit_roundoff * \<bar>q\<bar> \<le> unit_roundoff * 2 ^ 1023"
    using assms unit_roundoff_bounds by (intro mult_left_mono) simp_all
  with e assms have "m \<le> 2 ^ 1023 + unit_roundoff * 2 ^ 1023 + underflow_unit"
    by linarith
  also have "\<dots> < 2 ^ 1024"
    by (simp add: unit_roundoff_def underflow_unit_def)
  finally have hi: "\<not> 2 ^ 1024 \<le> m"
    by simp
  have r: "rnd q = (if m = 0 then zero (q < 0) else Fin (if q < 0 then - m else m))"
    using hi unfolding m_def by (simp add: rnd_def Let_def)
  show ?thesis
  proof (cases "m = 0")
    case True
    have "isFinite (zero (q < 0))" "val (zero (q < 0)) = 0"
      by (simp_all add: zero_def)
    moreover have "\<bar>0 - q\<bar> \<le> unit_roundoff * \<bar>q\<bar> + underflow_unit"
      using e unfolding True by simp
    ultimately show ?thesis
      unfolding r using True by simp
  next
    case False
    with e show ?thesis
      unfolding r by (auto simp: abs_if split: if_splits)
  qed
qed

lemma plus_error:
  assumes "isFinite x" "isFinite y" "\<bar>val x + val y\<bar> \<le> 2 ^ 1023"
  shows "isFinite (x + y)
    \<and> \<bar>val (x + y) - (val x + val y)\<bar> \<le> unit_roundoff * \<bar>val x + val y\<bar> + underflow_unit"
proof -
  have f: "\<not> isNaN x" "\<not> isNaN y" "\<not> isInf x" "\<not> isInf y"
    using assms(1,2) by (cases x; cases y; simp)+
  show ?thesis
  proof (cases "val x + val y = 0")
    case True
    then show ?thesis
      using f underflow_unit_pos by (simp add: plus_number_def zero_def)
  next
    case False
    then have "x + y = rnd (val x + val y)"
      using f by (simp add: plus_number_def)
    then show ?thesis
      using rnd_error [OF assms(3)] by simp
  qed
qed

lemma accumulate_error_power:
  assumes t: "isFinite t" and K: "K \<le> 2 ^ 32" and big: "real K * \<bar>val t\<bar> \<le> 2 ^ 1000"
    and k: "k \<le> K"
  shows "isFinite (foldl (\<lambda>acc i. acc + t) (Fin 0) [0..<k])
    \<and> \<bar>val (foldl (\<lambda>acc i. acc + t) (Fin 0) [0..<k]) - real k * val t\<bar>
        \<le> (real k * \<bar>val t\<bar> + real k * underflow_unit) * (1 + unit_roundoff) ^ k
          - real k * \<bar>val t\<bar>"
  using k
proof (induction k)
  case 0
  then show ?case by simp
next
  case (Suc k)
  define u where "u = unit_roundoff"
  define h where "h = underflow_unit"
  define a where "a = val t"
  define A where "A = \<bar>val t\<bar>"
  define s where "s = foldl (\<lambda>acc i. acc + t) (Fin 0) [0..<k]"
  define X where "X = (1 + u) ^ k"
  define kA where "kA = real k * A"
  define kh where "kh = real k * h"
  define B where "B = kA + kh"
  define Y where "Y = B * X"
  define e where "e = \<bar>val s - real k * a\<bar>"
  have u: "0 < u" "u < 1" and h: "0 < h" and A: "0 \<le> A"
    using unit_roundoff_bounds underflow_unit_pos unfolding u_def h_def A_def by simp_all
  have kA: "0 \<le> kA" and B: "0 \<le> B"
    using A h unfolding kA_def B_def kh_def by simp_all
  from Suc have fin: "isFinite s" and ih: "e \<le> Y - kA"
    unfolding s_def e_def Y_def B_def kA_def kh_def X_def u_def h_def a_def A_def by simp_all
  have X1: "1 \<le> X"
    unfolding X_def using u by (intro one_le_power) simp
  have X2: "X \<le> 2"
    unfolding X_def u_def using Suc.prems K by (intro power_roundoff_le_2) simp
  have Y2: "Y \<le> 2 * B"
    unfolding Y_def using X2 B by (simp add: mult_left_mono mult.commute)
  have "k \<le> 2 ^ 32"
    using Suc.prems K by simp
  then have k32: "real k \<le> 2 ^ 32"
    by (metis of_nat_le_iff of_nat_numeral of_nat_power)
  have "real k * h \<le> 2 ^ 32 * h"
    using k32 h by (intro mult_right_mono) simp_all
  also have "\<dots> \<le> 1"
    unfolding h_def underflow_unit_def by simp
  finally have kh: "kh \<le> 1"
    unfolding kh_def .
  have "real (Suc k) * A \<le> real K * A"
    using Suc.prems A by (intro mult_right_mono) simp_all
  with big have SA: "kA + A \<le> 2 ^ 1000"
    unfolding kA_def A_def by (simp add: algebra_simps)
  have tri: "\<bar>val s + a\<bar> \<le> e + kA + A"
  proof -
    have "val s + a = (val s - real k * a) + (real k * a + a)"
      by simp
    moreover have "\<bar>real k * a + a\<bar> \<le> kA + A"
      unfolding kA_def A_def a_def by (simp add: abs_mult abs_triangle_ineq [THEN order_trans])
    ultimately show ?thesis
      unfolding e_def by linarith
  qed
  have "e + kA + A \<le> 2 * B + A"
    using ih Y2 by linarith
  also have "\<dots> \<le> 2 * (kA + A) + 2"
    unfolding B_def using kh A by simp
  also have "\<dots> \<le> 2 * 2 ^ 1000 + 2"
    using SA by simp
  also have "\<dots> \<le> (2 ^ 1023 :: real)"
    by simp
  finally have "\<bar>val s + a\<bar> \<le> 2 ^ 1023"
    using tri by linarith
  from plus_error [OF fin t this [unfolded a_def]]
  have fin': "isFinite (s + t)" and r: "\<bar>val (s + t) - (val s + a)\<bar> \<le> u * \<bar>val s + a\<bar> + h"
    unfolding u_def h_def a_def by simp_all
  have "u * \<bar>val s + a\<bar> \<le> u * (e + kA + A)"
    using tri u by (intro mult_left_mono) simp_all
  then have r': "\<bar>val (s + t) - (val s + a)\<bar> \<le> u * e + u * kA + u * A + h"
    using r by (simp add: algebra_simps)
  have "u * e \<le> u * (Y - kA)"
    using ih u by (intro mult_left_mono) simp_all
  then have ue: "u * e \<le> u * Y - u * kA"
    by (simp add: algebra_simps)
  have split: "val (s + t) - real (Suc k) * a = (val (s + t) - (val s + a)) + (val s - real k * a)"
    by (simp add: algebra_simps)
  have e': "\<bar>val (s + t) - real (Suc k) * a\<bar> \<le> Y + u * Y - kA + u * A + h"
    unfolding split using r' ue ih unfolding e_def by linarith
  have "(A + h) * (1 + u) * 1 \<le> (A + h) * (1 + u) * X"
    using X1 A h u by (intro mult_left_mono mult_nonneg_nonneg) simp_all
  moreover have "0 \<le> h * u"
    using u h by simp
  ultimately have Z: "A + u * A + h \<le> (A + h) * (1 + u) * X"
    by (simp add: algebra_simps)
  have "(real (Suc k) * A + real (Suc k) * h) * (1 + u) ^ Suc k - real (Suc k) * A
      = Y + u * Y + (A + h) * (1 + u) * X - kA - A"
    unfolding Y_def B_def kA_def kh_def X_def by (simp add: algebra_simps)
  with e' Z have "\<bar>val (s + t) - real (Suc k) * a\<bar>
      \<le> (real (Suc k) * A + real (Suc k) * h) * (1 + u) ^ Suc k - real (Suc k) * A"
    by linarith
  moreover have "foldl (\<lambda>acc i. acc + t) (Fin 0) [0..<Suc k] = s + t"
    unfolding s_def by simp
  ultimately show ?case
    using fin' unfolding u_def h_def a_def A_def by simp
qed

lemma accumulate_error:
  assumes t: "isFinite t" and m: "m \<le> 2 ^ 32" and big: "real m * \<bar>val t\<bar> \<le> 2 ^ 1000"
  shows "isFinite (foldl (\<lambda>acc i. acc + t) (Fin 0) [0..<m])"
    and "\<bar>val (foldl (\<lambda>acc i. acc + t) (Fin 0) [0..<m]) - real m * val t\<bar>
        \<le> 2 * real m * unit_roundoff * (real m * \<bar>val t\<bar>) + 2 * real m * underflow_unit"
    and "\<bar>val (foldl (\<lambda>acc i. acc + t) (Fin 0) [0..<m])\<bar>
        \<le> 2 * (real m * \<bar>val t\<bar>) + 2 * real m * underflow_unit"
proof -
  define u where "u = unit_roundoff"
  define h where "h = underflow_unit"
  define s where "s = val (foldl (\<lambda>acc i. acc + t) (Fin 0) [0..<m])"
  define M where "M = real m * \<bar>val t\<bar>"
  define H where "H = real m * h"
  define w where "w = 2 * real m * u"
  note p = accumulate_error_power [OF t m big order_refl]
  from p show "isFinite (foldl (\<lambda>acc i. acc + t) (Fin 0) [0..<m])"
    by simp
  from p have e: "\<bar>s - real m * val t\<bar> \<le> (M + H) * (1 + u) ^ m - M"
    unfolding s_def M_def H_def u_def h_def by simp
  have u: "0 < u" and h: "0 < h"
    using unit_roundoff_bounds underflow_unit_pos unfolding u_def h_def by simp_all
  have M: "0 \<le> M" and H: "0 \<le> H"
    using h unfolding M_def H_def by simp_all
  have "real m \<le> 2 ^ 32"
    using m by (metis of_nat_le_iff of_nat_numeral of_nat_power)
  then have mu: "real m * u \<le> 1 / 2"
    unfolding u_def by (simp add: unit_roundoff_def field_simps)
  then have w: "0 \<le> w" "w \<le> 1"
    using u unfolding w_def by simp_all
  have "(1 + u) ^ m \<le> 1 + 2 * real m * u"
    using mu u by (intro power_one_plus_le) simp_all
  then have "(M + H) * (1 + u) ^ m \<le> (M + H) * (1 + w)"
    unfolding w_def using M H by (intro mult_left_mono) simp_all
  then have "(M + H) * (1 + u) ^ m - M \<le> w * M + H + w * H"
    by (simp add: algebra_simps)
  moreover have "w * H \<le> 1 * H" "w * M \<le> 1 * M"
    using w M H by (intro mult_right_mono; simp)+
  ultimately have b: "\<bar>s - real m * val t\<bar> \<le> w * M + 2 * H" "\<bar>s - real m * val t\<bar> \<le> M + 2 * H"
    using e by linarith+
  from b(1) show "\<bar>val (foldl (\<lambda>acc i. acc + t) (Fin 0) [0..<m]) - real m * val t\<bar>
        \<le> 2 * real m * unit_roundoff * (real m * \<bar>val t\<bar>) + 2 * real m * underflow_unit"
    unfolding s_def w_def M_def H_def u_def h_def by (simp add: algebra_simps)
  have "\<bar>real m * val t\<bar> = M"
    unfolding M_def by (simp add: abs_mult)
  with b(2) have "\<bar>s\<bar> \<le> 2 * M + 2 * H"
    by linarith
  then show "\<bar>val (foldl (\<lambda>acc i. acc + t) (Fin 0) [0..<m])\<bar>
        \<le> 2 * (real m * \<bar>val t\<bar>) + 2 * real m * underflow_unit"
    unfolding s_def M_def H_def h_def by (simp add: algebra_simps)
qed

lemma plus_error_bounds:
  assumes x: "isFinite x" "\<bar>val x - X\<bar> \<le> ex" "\<bar>val x\<bar> \<le> bx"
    and y: "isFinite y" "\<bar>val y - Y\<bar> \<le> ey" "\<bar>val y\<bar> \<le> by"
    and b: "bx + by \<le> 2 ^ 1023"
  shows "isFinite (x + y)"
    and "\<bar>val (x + y) - (X + Y)\<bar> \<le> ex + ey + unit_roundoff * (bx + by) + underflow_unit"
proof -
  have s: "\<bar>val x + val y\<bar> \<le> bx + by"
    using x(3) y(3) by linarith
  with b have "\<bar>val x + val y\<bar> \<le> 2 ^ 1023"
    by linarith
  from plus_error [OF x(1) y(1) this]
  have f: "isFinite (x + y)"
    and e: "\<bar>val (x + y) - (val x + val y)\<bar> \<le> unit_roundoff * \<bar>val x + val y\<bar> + underflow_unit"
    by simp_all
  show "isFinite (x + y)"
    by (rule f)
  have "unit_roundoff * \<bar>val x + val y\<bar> \<le> unit_roundoff * (bx + by)"
    using s unit_roundoff_bounds by (intro mult_left_mono) simp_all
  with e have "\<bar>val (x + y) - (val x + val y)\<bar> \<le> unit_roundoff * (bx + by) + underflow_unit"
    by linarith
  with x(2) y(2) show "\<bar>val (x + y) - (X + Y)\<bar>
      \<le> ex + ey + unit_roundoff * (bx + by) + underflow_unit"
    by linarith
qed

lemma layers_roundoff: "m \<le> 2 ^ 32 \<Longrightarrow> real m * unit_roundoff \<le> 1 / 2"
proof -
  assume "m \<le> 2 ^ 32"
  then have "real m \<le> 2 ^ 32"
    by (metis of_nat_le_iff of_nat_numeral of_nat_power)
  then show ?thesis
    by (simp add: unit_roundoff_def field_simps)
qed

lemma layers_underflow: "m \<le> 2 ^ 32 \<Longrightarrow> real m * underflow_unit \<le> 1"
proof -
  assume "m \<le> 2 ^ 32"
  then have "real m \<le> 2 ^ 32"
    by (metis of_nat_le_iff of_nat_numeral of_nat_power)
  then have "real m * underflow_unit \<le> 2 ^ 32 * underflow_unit"
    using underflow_unit_pos by (intro mult_right_mono) simp_all
  also have "\<dots> \<le> 1"
    by (simp add: underflow_unit_def)
  finally show ?thesis .
qed

text \<open>The total of the two caches over \<open>m\<close> layers with the same terms \<open>a\<close> and \<open>b\<close>.\<close>

lemma cache_total_error:
  assumes a: "isFinite a" "real m * \<bar>val a\<bar> \<le> 2 ^ 1000"
    and b: "isFinite b" "real m * \<bar>val b\<bar> \<le> 2 ^ 1000"
    and m: "m \<le> 2 ^ 32"
  shows "isFinite (foldl (\<lambda>acc i. acc + a) (Fin 0) [0..<m] + foldl (\<lambda>acc i. acc + b) (Fin 0) [0..<m])"
    and "\<bar>val (foldl (\<lambda>acc i. acc + a) (Fin 0) [0..<m] + foldl (\<lambda>acc i. acc + b) (Fin 0) [0..<m])
          - real m * (val a + val b)\<bar>
        \<le> real (2 * m + 2) * unit_roundoff * (real m * (\<bar>val a\<bar> + \<bar>val b\<bar>))
          + real (4 * m + 3) * underflow_unit"
proof -
  define u where "u = unit_roundoff"
  define h where "h = underflow_unit"
  define A where "A = real m * \<bar>val a\<bar>"
  define B where "B = real m * \<bar>val b\<bar>"
  define H where "H = real m * h"
  define w where "w = real m * u"
  define uA where "uA = u * A"
  define uB where "uB = u * B"
  define uH where "uH = u * H"
  define FA where "FA = foldl (\<lambda>acc i. acc + a) (Fin 0) [0..<m]"
  define FB where "FB = foldl (\<lambda>acc i. acc + b) (Fin 0) [0..<m]"
  have ea: "isFinite FA" "\<bar>val FA - real m * val a\<bar> \<le> 2 * (real m * uA) + 2 * H"
    "\<bar>val FA\<bar> \<le> 2 * A + 2 * H"
    using accumulate_error [OF a(1) m a(2)]
    unfolding FA_def uA_def A_def H_def u_def h_def by (simp_all add: algebra_simps)
  have eb: "isFinite FB" "\<bar>val FB - real m * val b\<bar> \<le> 2 * (real m * uB) + 2 * H"
    "\<bar>val FB\<bar> \<le> 2 * B + 2 * H"
    using accumulate_error [OF b(1) m b(2)]
    unfolding FB_def uB_def B_def H_def u_def h_def by (simp_all add: algebra_simps)
  have u: "0 < u" and h: "0 < h" and A: "0 \<le> A" "A \<le> 2 ^ 1000" and B: "0 \<le> B" "B \<le> 2 ^ 1000"
    and H: "0 \<le> H" "H \<le> 1" and w: "0 \<le> w" "w \<le> 1 / 2"
    using unit_roundoff_bounds underflow_unit_pos a(2) b(2) layers_roundoff [OF m]
      layers_underflow [OF m]
    unfolding u_def h_def A_def B_def H_def w_def by simp_all
  have "(2 * A + 2 * H) + (2 * B + 2 * H) \<le> (2 ^ 1023 :: real)"
  proof -
    have "(2 * A + 2 * H) + (2 * B + 2 * H) \<le> 2 * 2 ^ 1000 + 2 + (2 * 2 ^ 1000 + 2)"
      using A B H by simp
    also have "\<dots> \<le> (2 ^ 1023 :: real)"
      by simp
    finally show ?thesis .
  qed
  note p = plus_error_bounds [OF ea eb this, folded u_def h_def]
  have uH: "uH \<le> h / 2"
  proof -
    have "uH = w * h"
      unfolding uH_def H_def w_def by simp
    also have "\<dots> \<le> 1 / 2 * h"
      using w h by (intro mult_right_mono) simp_all
    finally show ?thesis by simp
  qed
  have r: "2 * (real m * uA) + 2 * H + (2 * (real m * uB) + 2 * H)
        + u * ((2 * A + 2 * H) + (2 * B + 2 * H)) + h
      = 2 * (real m * uA) + 2 * (real m * uB) + 2 * uA + 2 * uB + 4 * H + 4 * uH + h"
    unfolding uA_def uB_def uH_def by (simp add: algebra_simps)
  have t: "real (2 * m + 2) * unit_roundoff * (real m * (\<bar>val a\<bar> + \<bar>val b\<bar>))
          + real (4 * m + 3) * underflow_unit
      = 2 * (real m * uA) + 2 * (real m * uB) + 2 * uA + 2 * uB + 4 * H + 3 * h"
    unfolding uA_def uB_def A_def B_def H_def u_def h_def by (simp add: algebra_simps)
  have d: "real m * (val a + val b) = real m * val a + real m * val b"
    by (simp add: algebra_simps)
  show "isFinite (foldl (\<lambda>acc i. acc + a) (Fin 0) [0..<m] + foldl (\<lambda>acc i. acc + b) (Fin 0) [0..<m])"
    using p(1) unfolding FA_def FB_def .
  have "\<bar>val (FA + FB) - (real m * val a + real m * val b)\<bar>
      \<le> 2 * (real m * uA) + 2 * (real m * uB) + 2 * uA + 2 * uB + 4 * H + 4 * uH + h"
    using p(2) unfolding r .
  with uH have "\<bar>val (FA + FB) - (real m * val a + real m * val b)\<bar>
      \<le> 2 * (real m * uA) + 2 * (real m * uB) + 2 * uA + 2 * uB + 4 * H + 3 * h"
    by linarith
  then show "\<bar>val (foldl (\<lambda>acc i. acc + a) (Fin 0) [0..<m] + foldl (\<lambda>acc i. acc + b) (Fin 0) [0..<m])
          - real m * (val a + val b)\<bar>
        \<le> real (2 * m + 2) * unit_roundoff * (real m * (\<bar>val a\<bar> + \<bar>val b\<bar>))
          + real (4 * m + 3) * underflow_unit"
    unfolding t d FA_def FB_def .
qed

text \<open>The total of the compute loop over \<open>m\<close> layers with the same term \<open>l\<close>, plus \<open>c\<close>.\<close>

lemma ops_total_error:
  assumes l: "isFinite l" "real m * \<bar>val l\<bar> \<le> 2 ^ 1000"
    and c: "isFinite c" "\<bar>val c\<bar> \<le> 2 ^ 1000"
    and m: "m \<le> 2 ^ 32"
  shows "isFinite (foldl (\<lambda>acc i. acc + l) (Fin 0) [0..<m] + c)"
    and "\<bar>val (foldl (\<lambda>acc i. acc + l) (Fin 0) [0..<m] + c) - (real m * val l + val c)\<bar>
        \<le> real (2 * m + 2) * unit_roundoff * (real m * \<bar>val l\<bar>) + unit_roundoff * \<bar>val c\<bar>
          + real (2 * m + 2) * underflow_unit"
proof -
  define u where "u = unit_roundoff"
  define h where "h = underflow_unit"
  define L where "L = real m * \<bar>val l\<bar>"
  define C where "C = \<bar>val c\<bar>"
  define H where "H = real m * h"
  define w where "w = real m * u"
  define uL where "uL = u * L"
  define uC where "uC = u * C"
  define uH where "uH = u * H"
  define FL where "FL = foldl (\<lambda>acc i. acc + l) (Fin 0) [0..<m]"
  have el: "isFinite FL" "\<bar>val FL - real m * val l\<bar> \<le> 2 * (real m * uL) + 2 * H"
    "\<bar>val FL\<bar> \<le> 2 * L + 2 * H"
    using accumulate_error [OF l(1) m l(2)]
    unfolding FL_def uL_def L_def H_def u_def h_def by (simp_all add: algebra_simps)
  have ec: "\<bar>val c - val c\<bar> \<le> 0" "\<bar>val c\<bar> \<le> C"
    unfolding C_def by simp_all
  have u: "0 < u" and h: "0 < h" and L: "0 \<le> L" "L \<le> 2 ^ 1000" and C: "0 \<le> C" "C \<le> 2 ^ 1000"
    and H: "0 \<le> H" "H \<le> 1" and w: "0 \<le> w" "w \<le> 1 / 2"
    using unit_roundoff_bounds underflow_unit_pos l(2) c(2) layers_roundoff [OF m]
      layers_underflow [OF m]
    unfolding u_def h_def L_def C_def H_def w_def by simp_all
  have "(2 * L + 2 * H) + C \<le> (2 ^ 1023 :: real)"
  proof -
    have "(2 * L + 2 * H) + C \<le> 2 * 2 ^ 1000 + 2 + 2 ^ 1000"
      using L C H by simp
    also have "\<dots> \<le> (2 ^ 1023 :: real)"
      by simp
    finally show ?thesis .
  qed
  note p = plus_error_bounds [OF el c(1) ec this, folded u_def h_def]
  have uH: "uH \<le> h / 2"
  proof -
    have "uH = w * h"
      unfolding uH_def H_def w_def by simp
    also have "\<dots> \<le> 1 / 2 * h"
      using w h by (intro mult_right_mono) simp_all
    finally show ?thesis by simp
  qed
  have r: "2 * (real m * uL) + 2 * H + 0 + u * ((2 * L + 2 * H) + C) + h
      = 2 * (real m * uL) + 2 * uL + uC + 2 * H + 2 * uH + h"
    unfolding uL_def uC_def uH_def by (simp add: algebra_simps)
  have t: "real (2 * m + 2) * unit_roundoff * (real m * \<bar>val l\<bar>) + unit_roundoff * \<bar>val c\<bar>
          + real (2 * m + 2) * underflow_unit
      = 2 * (real m * uL) + 2 * uL + uC + 2 * H + 2 * h"
    unfolding uL_def uC_def L_def C_def H_def u_def h_def by (simp add: algebra_simps)
  show "isFinite (foldl (\<lambda>acc i. acc + l) (Fin 0) [0..<m] + c)"
    using p(1) unfolding FL_def .
  have "\<bar>val (FL + c) - (real m * val l + val c)\<bar>
      \<le> 2 * (real m * uL) + 2 * uL + uC + 2 * H + 2 * uH + h"
    using p(2) unfolding r .
  with uH have "\<bar>val (FL + c) - (real m * val l + val c)\<bar>
      \<le> 2 * (real m * uL) + 2 * uL + uC + 2 * H + 2 * h"
    by linarith
  then show "\<bar>val (foldl (\<lambda>acc i. acc + l) (Fin 0) [0..<m] + c) - (real m * val l + val c)\<bar>
        \<le> real (2 * m + 2) * unit_roundoff * (real m * \<bar>val l\<bar>) + unit_roundoff * \<bar>val c\<bar>
          + real (2 * m + 2) * underflow_unit"
    unfolding t FL_def .
qed

text \<open>Twice the total for \<open>n\<close> layers against the total for \<open>2 n\<close> layers.\<close>

lemma twice_cache_error:
  fixes P P' s T u h :: real and n :: nat
  assumes "\<bar>P - real n * s\<bar> \<le> real (2 * n + 2) * u * (real n * T) + real (4 * n + 3) * h"
    and "\<bar>P' - real (2 * n) * s\<bar>
      \<le> real (2 * (2 * n) + 2) * u * (real (2 * n) * T) + real (4 * (2 * n) + 3) * h"
  shows "\<bar>P' - 2 * P\<bar> \<le> real (6 * n + 4) * u * (real (2 * n) * T) + real (16 * n + 9) * h"
proof -
  define W where "W = u * (real n * T)"
  define Z where "Z = real n * W"
  define N where "N = real n * h"
  define x where "x = real n * s"
  have f: "real (2 * n + 2) * u * (real n * T) + real (4 * n + 3) * h = 2 * Z + 2 * W + 4 * N + 3 * h"
    "real (2 * (2 * n) + 2) * u * (real (2 * n) * T) + real (4 * (2 * n) + 3) * h
      = 8 * Z + 4 * W + 8 * N + 3 * h"
    "real (6 * n + 4) * u * (real (2 * n) * T) + real (16 * n + 9) * h
      = 12 * Z + 8 * W + 16 * N + 9 * h"
    unfolding Z_def W_def N_def by (simp_all add: algebra_simps)
  have d: "real (2 * n) * s = x + x"
    unfolding x_def by (simp add: algebra_simps)
  have "\<bar>P - x\<bar> \<le> 2 * Z + 2 * W + 4 * N + 3 * h"
    using assms(1) unfolding f(1) x_def .
  moreover have "\<bar>P' - (x + x)\<bar> \<le> 8 * Z + 4 * W + 8 * N + 3 * h"
    using assms(2) unfolding f(2) unfolding d .
  ultimately have "\<bar>P' - (P + P)\<bar> \<le> 12 * Z + 8 * W + 16 * N + 9 * h"
    by linarith
  then show ?thesis
    unfolding f(3) by (simp add: algebra_simps)
qed

lemma twice_ops_error:
  fixes G G' l c L C u h :: real and n :: nat
  assumes "\<bar>G - (real n * l + c)\<bar>
      \<le> real (2 * n + 2) * u * (real n * L) + u * C + real (2 * n + 2) * h"
    and "\<bar>G' - (real (2 * n) * l + c)\<bar>
      \<le> real (2 * (2 * n) + 2) * u * (real (2 * n) * L) + u * C + real (2 * (2 * n) + 2) * h"
  shows "\<bar>(G' - c) - 2 * (G - c)\<bar>
      \<le> u * (real (6 * n + 4) * (real (2 * n) * L) + 3 * C) + real (8 * n + 6) * h"
proof -
  define W where "W = u * (real n * L)"
  define Z where "Z = real n * W"
  define N where "N = real n * h"
  define V where "V = u * C"
  define x where "x = real n * l"
  have f: "real (2 * n + 2) * u * (real n * L) + u * C + real (2 * n + 2) * h
      = 2 * Z + 2 * W + V + 2 * N + 2 * h"
    "real (2 * (2 * n) + 2) * u * (real (2 * n) * L) + u * C + real (2 * (2 * n) + 2) * h
      = 8 * Z + 4 * W + V + 4 * N + 2 * h"
    "u * (real (6 * n + 4) * (real (2 * n) * L) + 3 * C) + real (8 * n + 6) * h
      = 12 * Z + 8 * W + 3 * V + 8 * N + 6 * h"
    unfolding Z_def W_def N_def V_def by (simp_all add: algebra_simps)
  have d: "real (2 * n) * l = x + x"
    unfolding x_def by (simp add: algebra_simps)
  have "\<bar>G - (x + c)\<bar> \<le> 2 * Z + 2 * W + V + 2 * N + 2 * h"
    using assms(1) unfolding f(1) x_def .
  moreover have "\<bar>G' - (x + x + c)\<bar> \<le> 8 * Z + 4 * W + V + 4 * N + 2 * h"
    using assms(2) unfolding f(2) unfolding d .
  ultimately have "\<bar>(G' - c) - ((G - c) + (G - c))\<bar> \<le> 12 * Z + 8 * W + 3 * V + 8 * N + 6 * h"
    by linarith
  then show ?thesis
    unfolding f(3) by (simp add: algebra_simps)
qed

section \<open>The loops as folds\<close>

lemma fill_from_scalar_length: "length (fill_from_scalar kv i n arr) = length arr"
proof (induction kv i n arr rule: fill_from_scalar.induct)
  case (1 kv i n arr)
  then show ?case by (subst fill_from_scalar.simps) simp
qed

lemma fill_from_scalar_nth:
  "j < length arr \<Longrightarrow>
   fill_from_scalar kv i n arr ! j = (if i \<le> j \<and> j < n then kv else arr ! j)"
proof (induction kv i n arr rule: fill_from_scalar.induct)
  case (1 kv i n arr)
  then show ?case
    by (subst fill_from_scalar.simps) (auto simp: nth_list_update)
qed

lemma fill_from_array_length: "length (fill_from_array kv i n arr) = length arr"
proof (induction kv i n arr rule: fill_from_array.induct)
  case (1 kv i n arr)
  then show ?case by (subst fill_from_array.simps) simp
qed

lemma fill_from_array_nth:
  "j < length arr \<Longrightarrow>
   fill_from_array kv i n arr ! j =
     (if i \<le> j \<and> j < n \<and> j < length kv \<and> truthy (kv ! j) then kv ! j else arr ! j)"
proof (induction kv i n arr rule: fill_from_array.induct)
  case (1 kv i n arr)
  show ?case
  proof (cases "i < n")
    case True
    define arr' where "arr' = (if i < length kv \<and> truthy (kv ! i) then arr[i := kv ! i] else arr)"
    have len: "length arr' = length arr"
      by (simp add: arr'_def)
    have step: "fill_from_array kv i n arr = fill_from_array kv (Suc i) n arr'"
      using True by (subst fill_from_array.simps) (simp add: arr'_def)
    have ih: "fill_from_array kv (Suc i) n arr' ! j =
        (if Suc i \<le> j \<and> j < n \<and> j < length kv \<and> truthy (kv ! j) then kv ! j else arr' ! j)"
      using "1.IH" [OF True] "1.prems" len by (simp add: arr'_def)
    have here: "arr' ! j = (if j = i \<and> i < length kv \<and> truthy (kv ! i) then kv ! i else arr ! j)"
      using "1.prems" by (simp add: arr'_def nth_list_update)
    show ?thesis
      unfolding step ih here using True by (cases "j = i") auto
  next
    case False
    then show ?thesis by (subst fill_from_array.simps) auto
  qed
qed

lemma n_head_kv_arr_length: "length (n_head_kv_arr n head kv) = n"
  by (cases kv) (simp_all add: n_head_kv_arr_def fill_from_array_length fill_from_scalar_length)

lemma n_head_kv_arr_nth:
  "i < n \<Longrightarrow>
   n_head_kv_arr n (n_head md arch) (n_head_kv md arch) ! i = effective_head_count_kv md arch i"
  by (auto simp: n_head_kv_arr_def n_head_kv_def effective_head_count_kv_def
        fill_from_array_nth fill_from_scalar_nth
      split: option.splits MetadataValue.splits)

lemma cacheMBytes_loop_foldl:
  "cacheMBytes_loop hk hv arr sK sV i n (k, v) =
     (foldl (\<lambda>acc j. acc + hk * arr ! j * (sK / Fin 8) * TO_MEGA) k [i..<n],
      foldl (\<lambda>acc j. acc + hv * arr ! j * (sV / Fin 8) * TO_MEGA) v [i..<n])"
proof (induction hk hv arr sK sV i n "(k, v)" arbitrary: k v rule: cacheMBytes_loop.induct)
  case (1 hk hv arr sK sV i n k v)
  show ?case
  proof (cases "i < n")
    case True
    then show ?thesis
      by (subst cacheMBytes_loop.simps) (simp add: "1" upt_conv_Cons Let_def)
  next
    case False
    then show ?thesis
      by (subst cacheMBytes_loop.simps) simp
  qed
qed

lemma gFloatOps_loop_foldl:
  "gFloatOps_loop embd ff ratio i n acc =
     foldl (\<lambda>acc j. acc + floatOpsLayer embd ff ratio * TO_GIGA) acc [i..<n]"
proof (induction embd ff ratio i n acc rule: gFloatOps_loop.induct)
  case (1 embd ff ratio i n acc)
  show ?case
  proof (cases "i < n")
    case True
    then show ?thesis
      by (subst gFloatOps_loop.simps) (simp add: "1" upt_conv_Cons)
  next
    case False
    then show ?thesis
      by (subst gFloatOps_loop.simps) simp
  qed
qed

lemma foldl_times_prod_list: "foldl (\<lambda>a b. a * b) a xs = a * prod_list xs" for a :: int
  by (induction xs arbitrary: a) (simp_all add: mult.assoc)

lemma mBytesWeight_loop_foldl:
  "mBytesWeight_loop sizes ts acc =
     foldl (\<lambda>acc t. acc + Number (prod_list (shape t)) * (sizes (dtype t) / Fin 8) * TO_MEGA) acc ts"
  by (induction ts arbitrary: acc) (simp_all add: Let_def foldl_times_prod_list)

section \<open>The result of the estimator\<close>

lemma estimate_rejected:
  "startsWith (arch_of md) ''mamba'' \<or> startsWith (arch_of md) ''rwkv'' \<Longrightarrow>
   estimateRuntimeRequirement sizes cfg md ts = Inl (Error (unsupported_message (arch_of md)))"
  by (simp add: estimateRuntimeRequirement_def)

lemma estimate_range_error:
  "\<not> startsWith (arch_of md) ''mamba'' \<Longrightarrow> \<not> startsWith (arch_of md) ''rwkv'' \<Longrightarrow>
   array_length (n_layer md (arch_of md)) = None \<Longrightarrow>
   estimateRuntimeRequirement sizes cfg md ts = Inl RangeError"
  by (simp add: estimateRuntimeRequirement_def)

lemma estimate_returns:
  "\<not> startsWith (arch_of md) ''mamba'' \<Longrightarrow> \<not> startsWith (arch_of md) ''rwkv'' \<Longrightarrow>
   array_length (n_layer md (arch_of md)) = Some n \<Longrightarrow>
   \<exists>est. estimateRuntimeRequirement sizes cfg md ts = Inr est"
  by (simp add: estimateRuntimeRequirement_def Let_def split: prod.splits)

lemma llama_not_rejected: "\<not> startsWith ''llama'' ''mamba'' \<and> \<not> startsWith ''llama'' ''rwkv''"
  by (simp add: startsWith_def)

lemma estimate_result:
  assumes "\<not> startsWith (arch_of md) ''mamba''" "\<not> startsWith (arch_of md) ''rwkv''"
    and "array_length (n_layer md (arch_of md)) = Some n"
  shows "estimateRuntimeRequirement sizes cfg md ts =
    Inr \<lparr>memory =
          \<lparr>perToken =
             foldl (\<lambda>acc i. acc + n_embd_head_k md (arch_of md) * effective_head_count_kv md (arch_of md) i
                 * (sizes (case kvTypeK cfg of Some t \<Rightarrow> t | None \<Rightarrow> F16) / Fin 8) * TO_MEGA) (Fin 0) [0..<n]
           + foldl (\<lambda>acc i. acc + n_embd_head_v md (arch_of md) * effective_head_count_kv md (arch_of md) i
                 * (sizes (case kvTypeV cfg of Some t \<Rightarrow> t | None \<Rightarrow> F16) / Fin 8) * TO_MEGA) (Fin 0) [0..<n],
           weight = mBytesWeight_loop sizes (case ts of Some ts \<Rightarrow> ts | None \<Rightarrow> []) (Fin 0)\<rparr>,
         compute =
          \<lparr>gFloatOps =
             foldl (\<lambda>acc j. acc + floatOpsLayer (n_embd md (arch_of md)) (n_ff md (arch_of md))
                 (moe_ratio md (arch_of md)) * TO_GIGA) (Fin 0) [0..<n]
             + floatOpsMatMul (n_embd md (arch_of md)) (n_vocab md (arch_of md)) (Fin 1) * TO_GIGA\<rparr>\<rparr>"
proof -
  let ?arr = "n_head_kv_arr n (n_head md (arch_of md)) (n_head_kv md (arch_of md))"
  have k: "foldl (\<lambda>acc j. acc + hk * ?arr ! j * s * TO_MEGA) (Fin 0) [0..<n] =
      foldl (\<lambda>acc i. acc + hk * effective_head_count_kv md (arch_of md) i * s * TO_MEGA) (Fin 0) [0..<n]"
    for hk s
    by (rule foldl_cong) (simp_all add: n_head_kv_arr_nth)
  show ?thesis
    using assms
    by (simp add: estimateRuntimeRequirement_def Let_def cacheMBytes_loop_foldl gFloatOps_loop_foldl k)
qed

lemma estimate_cases:
  "estimateRuntimeRequirement sizes cfg md ts =
     (if startsWith (arch_of md) ''mamba'' \<or> startsWith (arch_of md) ''rwkv''
      then Inl (Error (unsupported_message (arch_of md)))
      else case array_length (n_layer md (arch_of md)) of
        None \<Rightarrow> Inl RangeError
      | Some n \<Rightarrow> Inr \<lparr>memory =
          \<lparr>perToken =
             foldl (\<lambda>acc i. acc + n_embd_head_k md (arch_of md) * effective_head_count_kv md (arch_of md) i
                 * (sizes (case kvTypeK cfg of Some t \<Rightarrow> t | None \<Rightarrow> F16) / Fin 8) * TO_MEGA) (Fin 0) [0..<n]
           + foldl (\<lambda>acc i. acc + n_embd_head_v md (arch_of md) * effective_head_count_kv md (arch_of md) i
                 * (sizes (case kvTypeV cfg of Some t \<Rightarrow> t | None \<Rightarrow> F16) / Fin 8) * TO_MEGA) (Fin 0) [0..<n],
           weight = mBytesWeight_loop sizes (case ts of Some ts \<Rightarrow> ts | None \<Rightarrow> []) (Fin 0)\<rparr>,
         compute =
          \<lparr>gFloatOps =
             foldl (\<lambda>acc j. acc + floatOpsLayer (n_embd md (arch_of md)) (n_ff md (arch_of md))
                 (moe_ratio md (arch_of md)) * TO_GIGA) (Fin 0) [0..<n]
             + floatOpsMatMul (n_embd md (arch_of md)) (n_vocab md (arch_of md)) (Fin 1) * TO_GIGA\<rparr>\<rparr>)"
  by (auto simp: estimate_rejected estimate_range_error estimate_result split: option.splits)

lemma moe_ratio_ge_one:
  "Fin 1 \<le> n_expert md arch \<Longrightarrow> Fin 1 \<le> n_expert_used md arch \<Longrightarrow> moe_ratio md arch = Fin 1"
  by (simp add: moe_ratio_def min_one one_div_one max_one)

section \<open>The example inputs, evaluated\<close>

lemma llama_fields:
  "arch_of (llama_metadata b) = ''llama''"
  "n_embd (llama_metadata b) ''llama'' = Fin 4096"
  "n_head (llama_metadata b) ''llama'' = Fin 32"
  "n_embd_head_k (llama_metadata b) ''llama'' = Fin 128"
  "n_embd_head_v (llama_metadata b) ''llama'' = Fin 128"
  "n_layer (llama_metadata b) ''llama'' = Fin b"
  "n_ff (llama_metadata b) ''llama'' = Fin 1"
  "n_vocab (llama_metadata b) ''llama'' = Fin 1"
  "moe_ratio (llama_metadata b) ''llama'' = Fin 1"
  "effective_head_count_kv (llama_metadata b) ''llama'' i = Fin 32"
  by (simp_all add: llama_metadata_def arch_of_def n_embd_def n_head_def n_embd_head_k_def
      n_embd_head_v_def n_layer_def n_ff_def n_vocab_def moe_ratio_ge_one n_expert_def
      n_expert_used_def Fin_one_le number_at_def effective_head_count_kv_def)

lemma layered_fields:
  "arch_of layered_metadata = ''llama''"
  "n_head layered_metadata ''llama'' = Fin 32"
  "n_head_kv layered_metadata ''llama'' = Arr [Fin 8, Fin 0]"
  "n_embd_head_k layered_metadata ''llama'' = Fin 128"
  "n_embd_head_v layered_metadata ''llama'' = Fin 128"
  "n_layer layered_metadata ''llama'' = Fin 3"
  by (simp_all add: layered_metadata_def arch_of_def n_embd_def n_head_def n_head_kv_def
      n_embd_head_k_def n_embd_head_v_def n_layer_def number_at_def fp_ops fp_eval)

lemma layered_effective:
  "map (effective_head_count_kv layered_metadata ''llama'') [0..<3] = [Fin 8, Fin 32, Fin 32]"
  by (simp add: upt_conv_Cons effective_head_count_kv_def layered_metadata_def n_head_def
      number_at_def truthy_def is_zero_def)

lemma layered_effective_at:
  "effective_head_count_kv layered_metadata ''llama'' i = (if i = 0 then Fin 8 else Fin 32)"
  by (simp add: effective_head_count_kv_def layered_metadata_def n_head_def number_at_def
      truthy_def is_zero_def nth_Cons' less_Suc_eq)

lemma example_sizes_simps:
  "example_sizes F16 = Fin 16" "example_sizes F32 = Fin 32"
  by (simp_all add: example_sizes_def)

text \<open>The cache of one layer with 8 and with 32 key-value heads of length 128, in megabytes.\<close>

lemma cache_term_8:
  "Fin 128 * Fin 8 * (Fin 16 / Fin 8) * TO_MEGA = Fin (4722366482869645 / 2305843009213693952)"
  by (simp add: TO_MEGA_eq fp_ops fp_eval)

lemma cache_term_32:
  "Fin 128 * Fin 32 * (Fin 16 / Fin 8) * TO_MEGA = Fin (4722366482869645 / 576460752303423488)"
  by (simp add: TO_MEGA_eq fp_ops fp_eval)

lemma llama_layer_ops:
  "floatOpsLayer (Fin 4096) (Fin 1) (Fin 1) * TO_GIGA = Fin (7402309461898169 / 36028797018963968)"
  by (simp add: floatOpsLayer_def TO_GIGA_eq fp_ops fp_eval)

lemma llama_out_ops:
  "floatOpsMatMul (Fin 4096) (Fin 1) (Fin 1) * TO_GIGA
     = Fin (4835703278458517 / 590295810358705651712)"
  by (simp add: floatOpsMatMul_def TO_GIGA_eq fp_ops fp_eval)

lemma array_length_numeral [simp]:
  "array_length (Fin 0) = Some 0"
  "array_length (Fin 1) = Some 1"
  "numeral k < (2 ^ 32 :: real) \<Longrightarrow> array_length (Fin (numeral k)) = Some (numeral k)"
  by (simp_all add: array_length_def)


lemma llama_declared: "fields_as_declared (llama_metadata b)"
  by (simp add: llama_metadata_def arch_of_def fields_as_declared_def number_or_absent_def)

text \<open>
  The estimate for the scenario of the specification, given the two totals that the loops
  accumulate over its layers.
\<close>

lemma llama_estimate:
  assumes "array_length (Fin b) = Some n" and "sizes F16 = Fin 16"
    and "foldl (\<lambda>acc i. acc + Fin (4722366482869645 / 576460752303423488)) (Fin 0) [0..<n] = K"
    and "foldl (\<lambda>acc i. acc + Fin (7402309461898169 / 36028797018963968)) (Fin 0) [0..<n] = G"
  shows "estimateRuntimeRequirement sizes f16_config (llama_metadata b) None =
     Inr \<lparr>memory = \<lparr>perToken = K + K, weight = Fin 0\<rparr>,
          compute = \<lparr>gFloatOps = G + Fin (4835703278458517 / 590295810358705651712)\<rparr>\<rparr>"
proof -
  have r: "\<not> startsWith (arch_of (llama_metadata b)) ''mamba''"
    "\<not> startsWith (arch_of (llama_metadata b)) ''rwkv''"
    "array_length (n_layer (llama_metadata b) (arch_of (llama_metadata b))) = Some n"
    using assms(1) by (simp_all add: llama_fields startsWith_def)
  show ?thesis
    unfolding estimate_result [OF r] llama_fields f16_config_def
    by (simp add: assms cache_term_32 llama_layer_ops llama_out_ops)
qed


lemma llama_estimate_3:
  "estimateRuntimeRequirement example_sizes f16_config (llama_metadata 3) None =
     Inr \<lparr>memory = \<lparr>perToken = Fin (1770887431076117 / 36028797018963968), weight = Fin 0\<rparr>,
          compute = \<lparr>gFloatOps = Fin (2775902941699961 / 4503599627370496)\<rparr>\<rparr>"
proof -
  have k: "foldl (\<lambda>acc i. acc + Fin (4722366482869645 / 576460752303423488)) (Fin 0) [0..<3]
      = Fin (1770887431076117 / 72057594037927936)"
    by (simp add: upt_conv_Cons) (simp add: fp_ops fp_eval)
  have g: "foldl (\<lambda>acc i. acc + Fin (7402309461898169 / 36028797018963968)) (Fin 0) [0..<3]
      = Fin (5551732096423627 / 9007199254740992)"
    by (simp add: upt_conv_Cons) (simp add: fp_ops fp_eval)
  have s: "Fin (1770887431076117 / 72057594037927936) + Fin (1770887431076117 / 72057594037927936)
      = Fin (1770887431076117 / 36028797018963968)"
    "Fin (5551732096423627 / 9007199254740992) + Fin (4835703278458517 / 590295810358705651712)
      = Fin (2775902941699961 / 4503599627370496)"
    by (simp_all add: fp_ops fp_eval)
  show ?thesis
    using llama_estimate [where b = 3 and n = 3 and sizes = example_sizes, OF _ _ k g]
    by (simp add: example_sizes_simps s)
qed

lemma llama_estimate_6:
  "estimateRuntimeRequirement example_sizes f16_config (llama_metadata 6) None =
     Inr \<lparr>memory = \<lparr>perToken = Fin (7083549724304467 / 72057594037927936), weight = Fin 0\<rparr>,
          compute = \<lparr>gFloatOps = Fin (2775884494955887 / 2251799813685248)\<rparr>\<rparr>"
proof -
  have k: "foldl (\<lambda>acc i. acc + Fin (4722366482869645 / 576460752303423488)) (Fin 0) [0..<6]
      = Fin (7083549724304467 / 144115188075855872)"
    by (simp add: upt_conv_Cons) (simp add: fp_ops fp_eval)
  have g: "foldl (\<lambda>acc i. acc + Fin (7402309461898169 / 36028797018963968)) (Fin 0) [0..<6]
      = Fin (5551732096423627 / 4503599627370496)"
    by (simp add: upt_conv_Cons) (simp add: fp_ops fp_eval)
  have s: "Fin (7083549724304467 / 144115188075855872) + Fin (7083549724304467 / 144115188075855872)
      = Fin (7083549724304467 / 72057594037927936)"
    "Fin (5551732096423627 / 4503599627370496) + Fin (4835703278458517 / 590295810358705651712)
      = Fin (2775884494955887 / 2251799813685248)"
    by (simp_all add: fp_ops fp_eval)
  show ?thesis
    using llama_estimate [where b = 6 and n = 6 and sizes = example_sizes, OF _ _ k g]
    by (simp add: example_sizes_simps s)
qed

lemma llama_estimate_32:
  assumes "sizes F16 = Fin 16"
  shows "estimateRuntimeRequirement sizes f16_config (llama_metadata 32) None =
     Inr \<lparr>memory = \<lparr>perToken = Fin (2361183241434823 / 4503599627370496), weight = Fin 0\<rparr>,
          compute = \<lparr>gFloatOps = Fin (7402318685270211 / 1125899906842624)\<rparr>\<rparr>"
proof -
  have k: "foldl (\<lambda>acc i. acc + Fin (4722366482869645 / 576460752303423488)) (Fin 0) [0..<32]
      = Fin (2361183241434823 / 9007199254740992)"
    by (simp add: upt_conv_Cons) (simp add: fp_ops fp_eval)
  have g: "foldl (\<lambda>acc i. acc + Fin (7402309461898169 / 36028797018963968)) (Fin 0) [0..<32]
      = Fin (3701154730949087 / 562949953421312)"
    by (simp add: upt_conv_Cons) (simp add: fp_ops fp_eval)
  have s: "Fin (2361183241434823 / 9007199254740992) + Fin (2361183241434823 / 9007199254740992)
      = Fin (2361183241434823 / 4503599627370496)"
    "Fin (3701154730949087 / 562949953421312) + Fin (4835703278458517 / 590295810358705651712)
      = Fin (7402318685270211 / 1125899906842624)"
    by (simp_all add: fp_ops fp_eval)
  show ?thesis
    using llama_estimate [where b = 32 and n = 32 and sizes = sizes, OF _ assms k g]
    by (simp add: s)
qed

section \<open>The claims\<close>

subsection \<open>Head-count expansion\<close>

text \<open>
  Claim C4. The head counts that the estimator resolves for \<open>n\<close> layers are, layer by
  layer, the effective \<^verbatim>\<open>head_count_kv\<close> of the specification: the entry of the sequence
  where it is present and truthy and \<^verbatim>\<open>head_count\<close> elsewhere, the scalar for every
  layer, \<^verbatim>\<open>head_count\<close> when the field is absent. The result has exactly \<open>n\<close> entries.
\<close>

theorem head_count_kv_expansion:
  "n_head_kv_arr n (n_head md arch) (n_head_kv md arch) = map (effective_head_count_kv md arch) [0..<n]
   \<and> length (n_head_kv_arr n (n_head md arch) (n_head_kv md arch)) = n"
  by (simp add: n_head_kv_arr_length n_head_kv_arr_nth list_eq_iff_nth_eq)

text \<open>
  With the sequence \<open>[8, 0]\<close> for three layers and 32 heads, the second layer (a falsy
  entry) and the third (no entry) fall back to 32.
\<close>

theorem head_count_kv_expansion_witness:
  "n_head_kv_arr 3 (Fin 32) (Arr [Fin 8, Fin 0]) = [Fin 8, Fin 32, Fin 32]"
  using head_count_kv_expansion [of 3 layered_metadata "''llama''"]
  by (simp add: layered_fields layered_effective)

subsection \<open>Cache memory per token\<close>

text \<open>
  Claim C1. For an architecture that is not rejected and a block count that is the
  number \<open>n\<close> of layers, the estimator returns an estimate whose \<^verbatim>\<open>memory.perToken\<close> is the
  total of the key cache plus the total of the value cache, each accumulated over the
  layers \<open>0, \<dots>, n - 1\<close> in this order from zero, the contribution of layer \<open>i\<close> being
  \<^verbatim>\<open>n_embd_head_k * effective_head_count_kv[i] * (bits(kvTypeK) / 8) * 1e-6\<close> for the keys
  and the same with \<^verbatim>\<open>n_embd_head_v\<close> and \<^verbatim>\<open>kvTypeV\<close> for the values.
\<close>

theorem per_token_cache_formula:
  assumes "\<not> startsWith (arch_of md) ''mamba''" "\<not> startsWith (arch_of md) ''rwkv''"
    and "array_length (n_layer md (arch_of md)) = Some n"
  shows "\<exists>est. estimateRuntimeRequirement sizes cfg md ts = Inr est \<and>
     perToken (memory est) =
       foldl (\<lambda>acc i. acc + n_embd_head_k md (arch_of md) * effective_head_count_kv md (arch_of md) i
                 * (sizes (case kvTypeK cfg of Some t \<Rightarrow> t | None \<Rightarrow> F16) / Fin 8) * TO_MEGA) (Fin 0) [0..<n]
     + foldl (\<lambda>acc i. acc + n_embd_head_v md (arch_of md) * effective_head_count_kv md (arch_of md) i
                 * (sizes (case kvTypeV cfg of Some t \<Rightarrow> t | None \<Rightarrow> F16) / Fin 8) * TO_MEGA) (Fin 0) [0..<n]"
  by (simp add: estimate_result [OF assms])

text \<open>
  The three layers of \<open>layered_metadata\<close> hold 8, 32 and 32 key-value heads of length
  \<open>4096 / 32 = 128\<close>; with 16-bit caches this is 0.036863999999999994 megabytes per token.
\<close>

theorem per_token_cache_formula_witness:
  "\<exists>est. estimateRuntimeRequirement example_sizes f16_config layered_metadata None = Inr est \<and>
     perToken (memory est) = Fin (2656331146614175 / 72057594037927936)"
proof -
  have l: "[0..<3] = [0, 1, 2]"
    by (simp add: upt_conv_Cons)
  have s: "Fin 0 + Fin (4722366482869645 / 2305843009213693952)
      + Fin (4722366482869645 / 576460752303423488) + Fin (4722366482869645 / 576460752303423488)
      = Fin (2656331146614175 / 144115188075855872)"
    by (simp add: fp_ops fp_eval)
  have t: "Fin (2656331146614175 / 144115188075855872) + Fin (2656331146614175 / 144115188075855872)
      = Fin (2656331146614175 / 72057594037927936)"
    by (simp add: fp_ops fp_eval)
  show ?thesis
    using per_token_cache_formula [of layered_metadata 3 example_sizes f16_config None]
    by (simp add: layered_fields startsWith_def f16_config_def example_sizes_simps l
        layered_effective_at cache_term_8 cache_term_32 s t)
qed

subsection \<open>The rejected architectures\<close>

text \<open>
  Claim C2. When the architecture name begins with \<^verbatim>\<open>mamba\<close> or with \<^verbatim>\<open>rwkv\<close> the call
  raises the error whose message carries the name, and there is no estimate. The
  architecture \<^verbatim>\<open>llama\<close> is never rejected: the call does not raise that error, and it
  returns an estimate whenever \<^verbatim>\<open>Array(n_layer)\<close> can be made.
\<close>

theorem unsupported_architecture_rejected:
  "(startsWith (arch_of md) ''mamba'' \<or> startsWith (arch_of md) ''rwkv'' \<longrightarrow>
      estimateRuntimeRequirement sizes cfg md ts = Inl (Error (unsupported_message (arch_of md))))
   \<and> (arch_of md = ''llama'' \<longrightarrow>
        (\<forall>msg. estimateRuntimeRequirement sizes cfg md ts \<noteq> Inl (Error msg))
        \<and> (\<forall>n. array_length (n_layer md ''llama'') = Some n \<longrightarrow>
              (\<exists>est. estimateRuntimeRequirement sizes cfg md ts = Inr est)))"
proof (intro conjI impI allI)
  assume "startsWith (arch_of md) ''mamba'' \<or> startsWith (arch_of md) ''rwkv''"
  then show "estimateRuntimeRequirement sizes cfg md ts = Inl (Error (unsupported_message (arch_of md)))"
    by (rule estimate_rejected)
next
  fix msg assume a: "arch_of md = ''llama''"
  show "estimateRuntimeRequirement sizes cfg md ts \<noteq> Inl (Error msg)"
  proof (cases "array_length (n_layer md (arch_of md))")
    case None
    then show ?thesis using a llama_not_rejected by (simp add: estimate_range_error)
  next
    case (Some n)
    then obtain est where "estimateRuntimeRequirement sizes cfg md ts = Inr est"
      using a llama_not_rejected estimate_returns [of md n sizes cfg ts] by auto
    then show ?thesis by simp
  qed
next
  fix n assume "arch_of md = ''llama''" "array_length (n_layer md ''llama'') = Some n"
  then show "\<exists>est. estimateRuntimeRequirement sizes cfg md ts = Inr est"
    using llama_not_rejected estimate_returns [of md n sizes cfg ts] by auto
qed

text \<open>The names \<^verbatim>\<open>mamba-2\<close> and \<^verbatim>\<open>rwkv-v5\<close> are rejected, \<^verbatim>\<open>llama\<close> with two layers is not.\<close>

theorem unsupported_architecture_rejected_witness:
  \<open>estimateRuntimeRequirement example_sizes f16_config [''general.architecture'' \<mapsto> Str ''mamba-2''] None
     = Inl (Error ''Memory usage estimation for arch "mamba-2" is not supported'')
   \<and> estimateRuntimeRequirement example_sizes f16_config [''general.architecture'' \<mapsto> Str ''rwkv-v5''] None
     = Inl (Error ''Memory usage estimation for arch "rwkv-v5" is not supported'')
   \<and> (\<exists>est. estimateRuntimeRequirement example_sizes f16_config (llama_metadata 2) None = Inr est)\<close>
proof -
  have m: "arch_of [''general.architecture'' \<mapsto> Str ''mamba-2''] = ''mamba-2''"
    and r: "arch_of [''general.architecture'' \<mapsto> Str ''rwkv-v5''] = ''rwkv-v5''"
    by (simp_all add: arch_of_def)
  show ?thesis
    using unsupported_architecture_rejected
        [of "[''general.architecture'' \<mapsto> Str ''mamba-2'']" example_sizes f16_config None]
      unsupported_architecture_rejected
        [of "[''general.architecture'' \<mapsto> Str ''rwkv-v5'']" example_sizes f16_config None]
      unsupported_architecture_rejected [of "llama_metadata 2" example_sizes f16_config None]
    unfolding m r llama_fields
    by (simp add: startsWith_def unsupported_message_def)
qed

subsection \<open>The ratio of the experts\<close>

text \<open>
  Claim C5. The ratio used in the compute step is
  \<^verbatim>\<open>max(1, min(1, expert_used_count) / min(1, expert_count))\<close>, each count being 1 when it
  is absent. It is exactly 1 when both counts are absent, and exactly 1 whenever both
  counts are at least 1.
\<close>

theorem moe_ratio_is_one:
  "moe_ratio md arch =
     Math_max (Fin 1)
       (Math_min (Fin 1) (case number_at md (arch @ ''.expert_used_count'') of Some v \<Rightarrow> v | None \<Rightarrow> Fin 1)
        / Math_min (Fin 1) (case number_at md (arch @ ''.expert_count'') of Some v \<Rightarrow> v | None \<Rightarrow> Fin 1))
   \<and> (md (arch @ ''.expert_count'') = None \<and> md (arch @ ''.expert_used_count'') = None \<longrightarrow>
        moe_ratio md arch = Fin 1)
   \<and> (Fin 1 \<le> n_expert md arch \<and> Fin 1 \<le> n_expert_used md arch \<longrightarrow> moe_ratio md arch = Fin 1)"
proof (intro conjI impI)
  show "moe_ratio md arch =
     Math_max (Fin 1)
       (Math_min (Fin 1) (case number_at md (arch @ ''.expert_used_count'') of Some v \<Rightarrow> v | None \<Rightarrow> Fin 1)
        / Math_min (Fin 1) (case number_at md (arch @ ''.expert_count'') of Some v \<Rightarrow> v | None \<Rightarrow> Fin 1))"
    by (simp add: moe_ratio_def n_expert_def n_expert_used_def)
next
  assume "md (arch @ ''.expert_count'') = None \<and> md (arch @ ''.expert_used_count'') = None"
  then have "n_expert md arch = Fin 1" "n_expert_used md arch = Fin 1"
    by (simp_all add: n_expert_def n_expert_used_def number_at_def)
  then show "moe_ratio md arch = Fin 1"
    by (simp add: moe_ratio_ge_one Fin_one_le)
next
  assume "Fin 1 \<le> n_expert md arch \<and> Fin 1 \<le> n_expert_used md arch"
  then show "moe_ratio md arch = Fin 1"
    by (simp add: moe_ratio_ge_one)
qed

text \<open>Eight experts of which two are used, and no expert counts at all.\<close>

theorem moe_ratio_is_one_witness:
  "moe_ratio [''llama.expert_count'' \<mapsto> Num (Fin 8), ''llama.expert_used_count'' \<mapsto> Num (Fin 2)] ''llama''
     = Fin 1
   \<and> moe_ratio Map.empty ''llama'' = Fin 1"
proof -
  let ?md = "[''llama.expert_count'' \<mapsto> Num (Fin 8), ''llama.expert_used_count'' \<mapsto> Num (Fin 2)]"
  have "Fin 1 \<le> n_expert ?md ''llama'' \<and> Fin 1 \<le> n_expert_used ?md ''llama''"
    by (simp add: n_expert_def n_expert_used_def number_at_def less_eq_number_def less_number_def)
  with moe_ratio_is_one [of ?md "''llama''"] have "moe_ratio ?md ''llama'' = Fin 1"
    by blast
  moreover have "Map.empty (''llama'' @ ''.expert_count'') = (None :: MetadataValue option)
      \<and> Map.empty (''llama'' @ ''.expert_used_count'') = (None :: MetadataValue option)"
    by simp
  with moe_ratio_is_one [of Map.empty "''llama''"] have "moe_ratio Map.empty ''llama'' = Fin 1"
    by blast
  ultimately show ?thesis
    by simp
qed

subsection \<open>The memory of the weights\<close>

text \<open>
  Claim C6. A call without a tensor manifest does what the call with an empty manifest
  does, for every input: the missing manifest is no error. For an architecture that is
  not rejected and a block count that is a number of layers, with a manifest
  \<^verbatim>\<open>memory.weight\<close> is the total, accumulated from zero in the order of the manifest, of
  \<^verbatim>\<open>Number(product of the shape) * (bits(dtype) / 8) * 1e-6\<close>, the product being taken over
  the integers; and without a manifest the call returns, with \<^verbatim>\<open>memory.weight\<close> zero.
\<close>

theorem weight_memory_formula:
  "estimateRuntimeRequirement sizes cfg md None = estimateRuntimeRequirement sizes cfg md (Some [])
   \<and> (\<not> startsWith (arch_of md) ''mamba'' \<and> \<not> startsWith (arch_of md) ''rwkv''
        \<and> array_length (n_layer md (arch_of md)) = Some n
      \<longrightarrow> (\<exists>est. estimateRuntimeRequirement sizes cfg md (Some tensors) = Inr est \<and>
             weight (memory est) =
               foldl (\<lambda>acc t. acc + Number (prod_list (shape t)) * (sizes (dtype t) / Fin 8) * TO_MEGA)
                 (Fin 0) tensors)
          \<and> (\<exists>est. estimateRuntimeRequirement sizes cfg md None = Inr est
                \<and> weight (memory est) = Fin 0))"
proof (intro conjI impI)
  show "estimateRuntimeRequirement sizes cfg md None = estimateRuntimeRequirement sizes cfg md (Some [])"
    by (simp add: estimate_cases split: option.splits)
next
  assume "\<not> startsWith (arch_of md) ''mamba'' \<and> \<not> startsWith (arch_of md) ''rwkv''
        \<and> array_length (n_layer md (arch_of md)) = Some n"
  then have r: "\<not> startsWith (arch_of md) ''mamba''" "\<not> startsWith (arch_of md) ''rwkv''"
    "array_length (n_layer md (arch_of md)) = Some n"
    by simp_all
  show "\<exists>est. estimateRuntimeRequirement sizes cfg md (Some tensors) = Inr est \<and>
      weight (memory est) =
        foldl (\<lambda>acc t. acc + Number (prod_list (shape t)) * (sizes (dtype t) / Fin 8) * TO_MEGA)
          (Fin 0) tensors"
    by (simp add: estimate_result [OF r] mBytesWeight_loop_foldl)
  show "\<exists>est. estimateRuntimeRequirement sizes cfg md None = Inr est \<and> weight (memory est) = Fin 0"
    by (simp add: estimate_result [OF r])
qed

text \<open>
  A 16-bit tensor of shape 4096 by 32000 and a 32-bit tensor of 4096 elements weigh
  262.160384 megabytes.
\<close>

theorem weight_memory_formula_witness:
  "(\<exists>est. estimateRuntimeRequirement example_sizes f16_config (llama_metadata 2) (Some example_tensors)
        = Inr est \<and> weight (memory est) = Fin (1152993562200885 / 4398046511104))
   \<and> (\<exists>est. estimateRuntimeRequirement example_sizes f16_config (llama_metadata 2) None = Inr est
        \<and> weight (memory est) = Fin 0)"
proof -
  have w: "foldl (\<lambda>acc t. acc + Number (prod_list (shape t)) * (example_sizes (dtype t) / Fin 8) * TO_MEGA)
      (Fin 0) example_tensors = Fin (1152993562200885 / 4398046511104)"
    unfolding example_tensors_def foldl_Cons foldl_Nil
    by (simp add: example_sizes_def Number_def TO_MEGA_eq fp_ops fp_eval)
  have "\<not> startsWith (arch_of (llama_metadata 2)) ''mamba''
      \<and> \<not> startsWith (arch_of (llama_metadata 2)) ''rwkv''
      \<and> array_length (n_layer (llama_metadata 2) (arch_of (llama_metadata 2))) = Some 2"
    by (simp add: llama_fields startsWith_def)
  with weight_memory_formula [of example_sizes f16_config "llama_metadata 2" 2 example_tensors]
  show ?thesis
    unfolding w by blast
qed

subsection \<open>The configuration influences the cache only\<close>

text \<open>
  Claim C10. Two calls that differ in the configuration only agree on whether they raise
  (and on the error) and, when they return, on \<^verbatim>\<open>memory.weight\<close> and on
  \<^verbatim>\<open>compute.gFloatOps\<close>: the types of the caches reach \<^verbatim>\<open>memory.perToken\<close> only.
\<close>

theorem config_noninterference:
  "map_sum id (\<lambda>est. (weight (memory est), gFloatOps (compute est)))
     (estimateRuntimeRequirement sizes config1 md ts) =
   map_sum id (\<lambda>est. (weight (memory est), gFloatOps (compute est)))
     (estimateRuntimeRequirement sizes config2 md ts)"
  by (simp add: estimate_cases split: option.splits)

subsection \<open>A missing architecture name\<close>

lemma matmul_zero: "floatOpsMatMul (Fin 0) (Fin 1) (Fin 1) * TO_GIGA = Fin 0"
  by (simp add: floatOpsMatMul_def times_number_def zero_def is_zero_def TO_GIGA_eq)

lemma unknown_not_rejected:
  "\<not> startsWith ''unknown'' ''mamba'' \<and> \<not> startsWith ''unknown'' ''rwkv''"
  by (simp add: startsWith_def)

lemma arch_of_absent: "md ''general.architecture'' = None \<Longrightarrow> arch_of md = ''unknown''"
  by (simp add: arch_of_def)

lemma estimate_unknown_agree:
  assumes "md ''general.architecture'' = None" "md' ''general.architecture'' = None"
    and same: "\<forall>field. md' (''unknown.'' @ field) = md (''unknown.'' @ field)"
  shows "estimateRuntimeRequirement sizes cfg md' ts = estimateRuntimeRequirement sizes cfg md ts"
proof -
  have a: "arch_of md = ''unknown''" "arch_of md' = ''unknown''"
    using assms by (simp_all add: arch_of_absent)
  have key: "md' (''unknown'' @ CHR ''.'' # field) = md (''unknown'' @ CHR ''.'' # field)" for field
    using same [rule_format, of field] by simp
  have num: "number_at md' (''unknown'' @ CHR ''.'' # field) = number_at md (''unknown'' @ CHR ''.'' # field)"
    for field
    unfolding number_at_def key ..
  have eqs: "n_embd md' ''unknown'' = n_embd md ''unknown''"
    "n_head md' ''unknown'' = n_head md ''unknown''"
    "n_layer md' ''unknown'' = n_layer md ''unknown''"
    "n_ff md' ''unknown'' = n_ff md ''unknown''"
    "n_vocab md' ''unknown'' = n_vocab md ''unknown''"
    "n_expert md' ''unknown'' = n_expert md ''unknown''"
    "n_expert_used md' ''unknown'' = n_expert_used md ''unknown''"
    "n_head_kv md' ''unknown'' = n_head_kv md ''unknown''"
    unfolding n_embd_def n_head_def n_layer_def n_ff_def n_vocab_def n_expert_def
      n_expert_used_def n_head_kv_def num key by (rule refl)+
  from this have eqs': "n_embd_head_k md' ''unknown'' = n_embd_head_k md ''unknown''"
    "n_embd_head_v md' ''unknown'' = n_embd_head_v md ''unknown''"
    "moe_ratio md' ''unknown'' = moe_ratio md ''unknown''"
    unfolding n_embd_head_k_def n_embd_head_v_def moe_ratio_def num by (simp_all split: option.splits)
  show ?thesis
    unfolding estimateRuntimeRequirement_def a Let_def eqs eqs' ..
qed

lemma estimate_unknown_defaults:
  assumes "md ''general.architecture'' = None"
    and none: "\<forall>field. md (''unknown.'' @ field) = None"
  shows "estimateRuntimeRequirement sizes cfg md ts =
     Inr \<lparr>memory = \<lparr>perToken = Fin 0,
                     weight = mBytesWeight_loop sizes (case ts of Some ts \<Rightarrow> ts | None \<Rightarrow> []) (Fin 0)\<rparr>,
          compute = \<lparr>gFloatOps = Fin 0\<rparr>\<rparr>"
proof -
  have a: "arch_of md = ''unknown''"
    using assms by (simp add: arch_of_absent)
  have key: "md (''unknown'' @ CHR ''.'' # field) = None" for field
    using none [rule_format, of field] by simp
  have num: "number_at md (''unknown'' @ CHR ''.'' # field) = None" for field
    unfolding number_at_def key by simp
  have f: "n_layer md ''unknown'' = Fin 0" "n_embd md ''unknown'' = Fin 0" "n_vocab md ''unknown'' = Fin 1"
    unfolding n_layer_def n_embd_def n_vocab_def num by simp_all
  show ?thesis
    using unknown_not_rejected
    by (subst estimate_result [where n = 0])
      (simp_all add: a f Fin_zero_plus_zero matmul_zero)
qed

text \<open>
  Claim C9. When the key \<^verbatim>\<open>general.architecture\<close> is absent the architecture name is
  \<^verbatim>\<open>unknown\<close>, which is never rejected. Every field is then looked up under the prefix
  \<^verbatim>\<open>unknown.\<close>: metadata that agree on the keys with this prefix give the same result,
  and when no such key is present every field takes its default and the call returns the
  estimate of zero layers.
\<close>

theorem absent_architecture_is_unknown:
  assumes "md ''general.architecture'' = None"
  shows "arch_of md = ''unknown''
    \<and> (\<forall>msg. estimateRuntimeRequirement sizes cfg md ts \<noteq> Inl (Error msg))
    \<and> (\<forall>md'. md' ''general.architecture'' = None
            \<and> (\<forall>field. md' (''unknown.'' @ field) = md (''unknown.'' @ field))
          \<longrightarrow> estimateRuntimeRequirement sizes cfg md' ts = estimateRuntimeRequirement sizes cfg md ts)
    \<and> ((\<forall>field. md (''unknown.'' @ field) = None) \<longrightarrow>
          estimateRuntimeRequirement sizes cfg md ts =
            Inr \<lparr>memory = \<lparr>perToken = Fin 0,
                     weight = mBytesWeight_loop sizes (case ts of Some ts \<Rightarrow> ts | None \<Rightarrow> []) (Fin 0)\<rparr>,
                 compute = \<lparr>gFloatOps = Fin 0\<rparr>\<rparr>)"
proof (intro conjI allI impI)
  show a: "arch_of md = ''unknown''"
    using assms by (rule arch_of_absent)
  show "estimateRuntimeRequirement sizes cfg md ts \<noteq> Inl (Error msg)" for msg
    using unknown_not_rejected by (simp add: estimate_cases a split: option.splits)
  show "estimateRuntimeRequirement sizes cfg md' ts = estimateRuntimeRequirement sizes cfg md ts"
    if "md' ''general.architecture'' = None
            \<and> (\<forall>field. md' (''unknown.'' @ field) = md (''unknown.'' @ field))" for md'
    using that assms by (intro estimate_unknown_agree) simp_all
  show "estimateRuntimeRequirement sizes cfg md ts =
            Inr \<lparr>memory = \<lparr>perToken = Fin 0,
                     weight = mBytesWeight_loop sizes (case ts of Some ts \<Rightarrow> ts | None \<Rightarrow> []) (Fin 0)\<rparr>,
                 compute = \<lparr>gFloatOps = Fin 0\<rparr>\<rparr>"
    if "\<forall>field. md (''unknown.'' @ field) = None"
    using assms that by (rule estimate_unknown_defaults)
qed

text \<open>Fields stored under \<^verbatim>\<open>llama.\<close> are not seen when the architecture name is missing.\<close>

theorem absent_architecture_is_unknown_witness:
  "arch_of [''llama.block_count'' \<mapsto> Num (Fin 32)] = ''unknown''
   \<and> estimateRuntimeRequirement example_sizes f16_config [''llama.block_count'' \<mapsto> Num (Fin 32)] None
       = Inr \<lparr>memory = \<lparr>perToken = Fin 0, weight = Fin 0\<rparr>, compute = \<lparr>gFloatOps = Fin 0\<rparr>\<rparr>"
  using absent_architecture_is_unknown
      [of "[''llama.block_count'' \<mapsto> Num (Fin 32)]" example_sizes f16_config None]
  by simp

subsection \<open>The sign of the derived quantities\<close>


















subsection \<open>The concrete scenario\<close>

text \<open>
  Claim C3, as amended. For the architecture \<^verbatim>\<open>llama\<close> with embedding length 4096, 32
  heads, a scalar \<^verbatim>\<open>head_count_kv\<close> of 32, 32 layers, key and value length 128, no tensor
  manifest and 16-bit caches for keys and values, the estimator returns
  \<^verbatim>\<open>memory.perToken\<close> close to 0.524288 megabytes (the double 0.5242880000000001),
  \<^verbatim>\<open>memory.weight\<close> zero and a \<^verbatim>\<open>compute.gFloatOps\<close> that is finite and greater than zero
  (the double 6.574579712000005).
\<close>

theorem llama_scenario:
  assumes "sizes F16 = Fin 16"
  shows "\<exists>est. estimateRuntimeRequirement sizes \<lparr>kvTypeK = Some F16, kvTypeV = Some F16\<rparr>
        (llama_metadata 32) None = Inr est
     \<and> perToken (memory est) = Fin (2361183241434823 / 4503599627370496)
     \<and> close_to (perToken (memory est)) (524288 / 1000000)
     \<and> weight (memory est) = Fin 0
     \<and> gFloatOps (compute est) = Fin (7402318685270211 / 1125899906842624)
     \<and> finite_positive (gFloatOps (compute est))"
  using llama_estimate_32 [of sizes] assms
  by (simp add: f16_config_def close_to_def finite_positive_def)

theorem llama_scenario_witness:
  "\<exists>est. estimateRuntimeRequirement example_sizes f16_config (llama_metadata 32) None = Inr est
     \<and> close_to (perToken (memory est)) (524288 / 1000000)
     \<and> weight (memory est) = Fin 0
     \<and> finite_positive (gFloatOps (compute est))"
  using llama_scenario [of example_sizes]
  by (auto simp: f16_config_def example_sizes_simps)

text \<open>
  The value 1.048576 of the claim as it was stated is twice what the estimator returns:
  the 8192 bytes of one layer's keys already count the two bytes of each element.
\<close>

theorem llama_scenario_counterexample:
  "estimateRuntimeRequirement example_sizes f16_config (llama_metadata 32) None =
     Inr \<lparr>memory = \<lparr>perToken = Fin (2361183241434823 / 4503599627370496), weight = Fin 0\<rparr>,
          compute = \<lparr>gFloatOps = Fin (7402318685270211 / 1125899906842624)\<rparr>\<rparr>
   \<and> \<not> close_to (Fin (2361183241434823 / 4503599627370496)) (1048576 / 1000000)"
  using llama_estimate_32 [of example_sizes]
  by (simp add: example_sizes_simps close_to_def)

subsection \<open>Doubling the block count\<close>

lemma block_count_key: "arch @ ''.block_count'' \<noteq> ''general.architecture''"
proof
  assume "arch @ ''.block_count'' = ''general.architecture''"
  then have "last (arch @ ''.block_count'') = last ''general.architecture''"
    by simp
  then show False by simp
qed

lemma other_block_count_arch: "arch_of (md(arch @ ''.block_count'' \<mapsto> v)) = arch_of md"
  using block_count_key [of arch] by (simp add: arch_of_def)

lemma other_block_count:
  assumes "md' = md(arch @ ''.block_count'' \<mapsto> Num (Fin b))"
  shows "n_layer md' arch = Fin b"
    and "n_embd md' arch = n_embd md arch"
    and "n_ff md' arch = n_ff md arch"
    and "n_vocab md' arch = n_vocab md arch"
    and "moe_ratio md' arch = moe_ratio md arch"
    and "n_embd_head_k md' arch = n_embd_head_k md arch"
    and "n_embd_head_v md' arch = n_embd_head_v md arch"
    and "effective_head_count_kv md' arch i = effective_head_count_kv md arch i"
proof -
  have n: "number_at md' (arch @ k) = (if k = ''.block_count'' then Some (Fin b) else number_at md (arch @ k))"
    for k
    unfolding assms by (simp add: number_at_def)
  show "n_layer md' arch = Fin b" "n_embd md' arch = n_embd md arch"
    "n_ff md' arch = n_ff md arch" "n_vocab md' arch = n_vocab md arch"
    by (simp_all add: n_layer_def n_embd_def n_ff_def n_vocab_def n)
  have h: "n_head md' arch = n_head md arch" "n_embd md' arch = n_embd md arch"
    by (simp_all add: n_head_def n_embd_def n)
  show "moe_ratio md' arch = moe_ratio md arch"
    by (simp add: moe_ratio_def n_expert_def n_expert_used_def n)
  show "n_embd_head_k md' arch = n_embd_head_k md arch"
    "n_embd_head_v md' arch = n_embd_head_v md arch"
    by (simp_all add: n_embd_head_k_def n_embd_head_v_def n h cong: option.case_cong)
  show "effective_head_count_kv md' arch i = effective_head_count_kv md arch i"
    using h(1) unfolding effective_head_count_kv_def assms
    by (simp split: option.splits MetadataValue.splits)
qed

lemma effective_scalar:
  "\<forall>vs. md (arch @ ''.attention.head_count_kv'') \<noteq> Some (Arr vs) \<Longrightarrow>
   effective_head_count_kv md arch i = effective_head_count_kv md arch 0"
  by (auto simp: effective_head_count_kv_def split: option.splits MetadataValue.splits)


lemma llama_other_block_count:
  "(llama_metadata b)(''llama'' @ ''.block_count'' \<mapsto> Num (Fin c)) = llama_metadata c"
  by (rule ext) (simp add: llama_metadata_def)

text \<open>
  Claim C8, as amended. Let the fields that the estimator reads have their declared
  types and \<^verbatim>\<open>head_count_kv\<close> be a scalar or absent, so that every layer adds the same
  number \<open>tK\<close> to the key cache, \<open>tV\<close> to the value cache and \<open>tL\<close> to the compute total,
  and let \<open>tC\<close> be the term of the output projection. Let the four be finite, of any sign,
  and let the multiples of \<open>tK\<close>, \<open>tV\<close> and \<open>tL\<close> up to twice the block count \<open>n\<close>, and \<open>tC\<close>,
  stay far from overflow (at most \<open>2^1000\<close> in magnitude). Then both calls return finite
  values, and doubling the block count with every other field fixed doubles
  \<^verbatim>\<open>memory.perToken\<close> and the per-layer portion of \<^verbatim>\<open>compute.gFloatOps\<close> (the total minus
  \<open>tC\<close>) up to rounding: \<^verbatim>\<open>memory.perToken\<close> for \<open>2 n\<close> layers differs from twice its value
  for \<open>n\<close> layers by at most \<open>(6 n + 4) / 2^53\<close> times \<open>2 n (\<bar>tK\<bar> + \<bar>tV\<bar>)\<close>, plus
  \<open>(16 n + 9) / 2^1075\<close>; and the per-layer portion for \<open>2 n\<close> layers differs from twice the
  one for \<open>n\<close> layers by at most \<open>((6 n + 4) (2 n \<bar>tL\<bar>) + 3 \<bar>tC\<bar>) / 2^53\<close>, plus
  \<open>(8 n + 6) / 2^1075\<close>.
\<close>

theorem doubling_block_count:
  fixes md :: metadata and n :: nat and sizes :: "GGMLQuantizationType \<Rightarrow> number"
    and cfg :: RuntimeConfig
  defines "a \<equiv> arch_of md"
  defines "tK \<equiv> n_embd_head_k md a * effective_head_count_kv md a 0
      * (sizes (case kvTypeK cfg of Some t \<Rightarrow> t | None \<Rightarrow> F16) / Fin 8) * TO_MEGA"
    and "tV \<equiv> n_embd_head_v md a * effective_head_count_kv md a 0
      * (sizes (case kvTypeV cfg of Some t \<Rightarrow> t | None \<Rightarrow> F16) / Fin 8) * TO_MEGA"
    and "tL \<equiv> floatOpsLayer (n_embd md a) (n_ff md a) (moe_ratio md a) * TO_GIGA"
    and "tC \<equiv> floatOpsMatMul (n_embd md a) (n_vocab md a) (Fin 1) * TO_GIGA"
  assumes declared: "fields_as_declared md"
    and supported: "\<not> startsWith a ''mamba''" "\<not> startsWith a ''rwkv''"
    and layers: "array_length (n_layer md a) = Some n" "2 * n < 2 ^ 32"
    and scalar: "\<forall>vs. md (a @ ''.attention.head_count_kv'') \<noteq> Some (Arr vs)"
    and finite: "isFinite tK" "isFinite tV" "isFinite tL" "isFinite tC"
    and far: "real (2 * n) * \<bar>val tK\<bar> \<le> 2 ^ 1000" "real (2 * n) * \<bar>val tV\<bar> \<le> 2 ^ 1000"
      "real (2 * n) * \<bar>val tL\<bar> \<le> 2 ^ 1000" "\<bar>val tC\<bar> \<le> 2 ^ 1000"
  shows "\<exists>est est'.
      estimateRuntimeRequirement sizes cfg md ts = Inr est
    \<and> estimateRuntimeRequirement sizes cfg (md(a @ ''.block_count'' \<mapsto> Num (Fin (real (2 * n))))) ts
        = Inr est'
    \<and> isFinite (perToken (memory est)) \<and> isFinite (perToken (memory est'))
    \<and> \<bar>val (perToken (memory est')) - 2 * val (perToken (memory est))\<bar>
        \<le> real (6 * n + 4) * unit_roundoff * (real (2 * n) * (\<bar>val tK\<bar> + \<bar>val tV\<bar>))
          + real (16 * n + 9) * underflow_unit
    \<and> isFinite (gFloatOps (compute est)) \<and> isFinite (gFloatOps (compute est'))
    \<and> \<bar>(val (gFloatOps (compute est')) - val tC) - 2 * (val (gFloatOps (compute est)) - val tC)\<bar>
        \<le> unit_roundoff * (real (6 * n + 4) * (real (2 * n) * \<bar>val tL\<bar>) + 3 * \<bar>val tC\<bar>)
          + real (8 * n + 6) * underflow_unit"
proof -
  define md' where "md' = md(a @ ''.block_count'' \<mapsto> Num (Fin (real (2 * n))))"
  note o = other_block_count [OF md'_def]
  have a': "arch_of md' = a"
    unfolding md'_def a_def by (rule other_block_count_arch)
  have "real (2 * n) < 2 ^ 32"
    using layers(2) by (metis of_nat_less_iff of_nat_numeral of_nat_power)
  then have len: "array_length (n_layer md' a) = Some (2 * n)"
    unfolding o(1) array_length_def by (simp del: of_nat_mult)
  have r: "\<not> startsWith (arch_of md) ''mamba''" "\<not> startsWith (arch_of md) ''rwkv''"
    "array_length (n_layer md (arch_of md)) = Some n"
    using supported layers unfolding a_def by simp_all
  have r': "\<not> startsWith (arch_of md') ''mamba''" "\<not> startsWith (arch_of md') ''rwkv''"
    "array_length (n_layer md' (arch_of md')) = Some (2 * n)"
    using supported len unfolding a' by simp_all
  have eff: "effective_head_count_kv md a i = effective_head_count_kv md a 0" for i
    using scalar by (rule effective_scalar)
  have fK: "(\<lambda>acc i. acc + n_embd_head_k md a * effective_head_count_kv md a i
        * (sizes (case kvTypeK cfg of Some t \<Rightarrow> t | None \<Rightarrow> F16) / Fin 8) * TO_MEGA)
      = (\<lambda>acc (i :: nat). acc + tK)"
    unfolding tK_def by (intro ext) (subst eff, rule refl)
  have fV: "(\<lambda>acc i. acc + n_embd_head_v md a * effective_head_count_kv md a i
        * (sizes (case kvTypeV cfg of Some t \<Rightarrow> t | None \<Rightarrow> F16) / Fin 8) * TO_MEGA)
      = (\<lambda>acc (i :: nat). acc + tV)"
    unfolding tV_def by (intro ext) (subst eff, rule refl)
  have n32: "n \<le> 2 ^ 32" "2 * n \<le> 2 ^ 32"
    using layers(2) by simp_all
  have half: "real n * \<bar>val tK\<bar> \<le> 2 ^ 1000" "real n * \<bar>val tV\<bar> \<le> 2 ^ 1000"
    "real n * \<bar>val tL\<bar> \<le> 2 ^ 1000"
  proof -
    have "real n * x \<le> real (2 * n) * x" if "0 \<le> x" for x
      using that by (intro mult_right_mono) simp_all
    from this [of "\<bar>val tK\<bar>"] this [of "\<bar>val tV\<bar>"] this [of "\<bar>val tL\<bar>"] far
    show "real n * \<bar>val tK\<bar> \<le> 2 ^ 1000" "real n * \<bar>val tV\<bar> \<le> 2 ^ 1000"
      "real n * \<bar>val tL\<bar> \<le> 2 ^ 1000"
      by simp_all
  qed
  define P where "P m = foldl (\<lambda>acc i. acc + tK) (Fin 0) [0..<m]
      + foldl (\<lambda>acc i. acc + tV) (Fin 0) [0..<m]" for m :: nat
  define G where "G m = foldl (\<lambda>acc i. acc + tL) (Fin 0) [0..<m] + tC" for m :: nat
  note p = cache_total_error [OF finite(1) half(1) finite(2) half(2) n32(1), folded P_def]
  note p' = cache_total_error [OF finite(1) far(1) finite(2) far(2) n32(2), folded P_def]
  note g = ops_total_error [OF finite(3) half(3) finite(4) far(4) n32(1), folded G_def]
  note g' = ops_total_error [OF finite(3) far(3) finite(4) far(4) n32(2), folded G_def]
  have e: "estimateRuntimeRequirement sizes cfg md ts =
      Inr \<lparr>memory = \<lparr>perToken = P n,
                      weight = mBytesWeight_loop sizes (case ts of Some ts \<Rightarrow> ts | None \<Rightarrow> []) (Fin 0)\<rparr>,
           compute = \<lparr>gFloatOps = G n\<rparr>\<rparr>"
    unfolding estimate_result [OF r] a_def [symmetric] fK fV tL_def [symmetric] tC_def [symmetric]
      P_def G_def ..
  have e': "estimateRuntimeRequirement sizes cfg md' ts =
      Inr \<lparr>memory = \<lparr>perToken = P (2 * n),
                      weight = mBytesWeight_loop sizes (case ts of Some ts \<Rightarrow> ts | None \<Rightarrow> []) (Fin 0)\<rparr>,
           compute = \<lparr>gFloatOps = G (2 * n)\<rparr>\<rparr>"
    unfolding estimate_result [OF r'] a' o fK fV tL_def [symmetric] tC_def [symmetric]
      P_def G_def ..
  show ?thesis
    unfolding md'_def [symmetric] e e'
    using p(1) p'(1) g(1) g'(1) twice_cache_error [OF p(2) p'(2)] twice_ops_error [OF g(2) g'(2)]
    by simp
qed

text \<open>The scenario of the specification, from three layers to six.\<close>

theorem doubling_block_count_witness:
  "\<exists>est est'.
      estimateRuntimeRequirement example_sizes f16_config (llama_metadata 3) None = Inr est
    \<and> estimateRuntimeRequirement example_sizes f16_config (llama_metadata 6) None = Inr est'
    \<and> isFinite (perToken (memory est)) \<and> isFinite (perToken (memory est'))
    \<and> \<bar>val (perToken (memory est')) - 2 * val (perToken (memory est))\<bar>
        \<le> 22 * unit_roundoff * (6 * (4722366482869645 / 288230376151711744))
          + 57 * underflow_unit
    \<and> isFinite (gFloatOps (compute est)) \<and> isFinite (gFloatOps (compute est'))
    \<and> \<bar>(val (gFloatOps (compute est')) - 4835703278458517 / 590295810358705651712)
          - 2 * (val (gFloatOps (compute est)) - 4835703278458517 / 590295810358705651712)\<bar>
        \<le> unit_roundoff * (22 * (6 * (7402309461898169 / 36028797018963968))
              + 3 * (4835703278458517 / 590295810358705651712))
          + 30 * underflow_unit"
proof -
  let ?k = "4722366482869645 / 576460752303423488 :: real"
  let ?l = "7402309461898169 / 36028797018963968 :: real"
  let ?c = "4835703278458517 / 590295810358705651712 :: real"
  have t: "n_embd_head_k (llama_metadata 3) ''llama'' * effective_head_count_kv (llama_metadata 3) ''llama'' 0
      * (example_sizes (case kvTypeK f16_config of Some t \<Rightarrow> t | None \<Rightarrow> F16) / Fin 8) * TO_MEGA
      = Fin ?k"
    "n_embd_head_v (llama_metadata 3) ''llama'' * effective_head_count_kv (llama_metadata 3) ''llama'' 0
      * (example_sizes (case kvTypeV f16_config of Some t \<Rightarrow> t | None \<Rightarrow> F16) / Fin 8) * TO_MEGA
      = Fin ?k"
    "floatOpsLayer (n_embd (llama_metadata 3) ''llama'') (n_ff (llama_metadata 3) ''llama'')
      (moe_ratio (llama_metadata 3) ''llama'') * TO_GIGA = Fin ?l"
    "floatOpsMatMul (n_embd (llama_metadata 3) ''llama'') (n_vocab (llama_metadata 3) ''llama'') (Fin 1)
      * TO_GIGA = Fin ?c"
    by (simp_all add: llama_fields f16_config_def example_sizes_simps cache_term_32 llama_layer_ops
        llama_out_ops)
  have s: "\<not> startsWith ''llama'' ''mamba''" "\<not> startsWith ''llama'' ''rwkv''"
    "array_length (n_layer (llama_metadata 3) ''llama'') = Some 3" "2 * 3 < (2 ^ 32 :: nat)"
    by (simp_all add: startsWith_def llama_fields)
  have v: "\<forall>vs. llama_metadata 3 (''llama'' @ ''.attention.head_count_kv'') \<noteq> Some (Arr vs)"
    by (simp add: llama_metadata_def)
  have x: "isFinite (Fin ?k)" "isFinite (Fin ?l)" "isFinite (Fin ?c)"
    "real (2 * 3) * \<bar>val (Fin ?k)\<bar> \<le> 2 ^ 1000" "real (2 * 3) * \<bar>val (Fin ?l)\<bar> \<le> 2 ^ 1000"
    "\<bar>val (Fin ?c)\<bar> \<le> 2 ^ 1000"
    by simp_all
  have m: "(llama_metadata 3)(''llama'' @ ''.block_count'' \<mapsto> Num (Fin (real (2 * 3)))) = llama_metadata 6"
    by (simp only: llama_other_block_count) simp
  from doubling_block_count [of "llama_metadata 3" 3 example_sizes f16_config None,
      unfolded llama_fields(1) m t, OF llama_declared s v x(1) x(1) x(2) x(3) x(4) x(4) x(5) x(6)]
  show ?thesis
    by (auto simp: algebra_simps)
qed

text \<open>
  The claim as it was stated fails from three layers to six: the per-token cache is
  0.049152 megabytes for three layers and 0.09830399999999999 for six, one unit in the
  last place below its double.
\<close>

theorem doubling_block_count_counterexample:
  "estimateRuntimeRequirement example_sizes f16_config (llama_metadata 3) None =
     Inr \<lparr>memory = \<lparr>perToken = Fin (1770887431076117 / 36028797018963968), weight = Fin 0\<rparr>,
          compute = \<lparr>gFloatOps = Fin (2775902941699961 / 4503599627370496)\<rparr>\<rparr>
   \<and> estimateRuntimeRequirement example_sizes f16_config (llama_metadata 6) None =
     Inr \<lparr>memory = \<lparr>perToken = Fin (7083549724304467 / 72057594037927936), weight = Fin 0\<rparr>,
          compute = \<lparr>gFloatOps = Fin (2775884494955887 / 2251799813685248)\<rparr>\<rparr>
   \<and> Fin 2 * Fin (1770887431076117 / 36028797018963968) = Fin (1770887431076117 / 18014398509481984)
   \<and> Fin (7083549724304467 / 72057594037927936) \<noteq> Fin (1770887431076117 / 18014398509481984)"
  by (simp add: llama_estimate_3 llama_estimate_6) (simp add: fp_ops fp_eval)


end
